theory Spec2Isabelle
  imports Main "HOL-Library.AList" "HOL-Library.Char_ord"
begin

section \<open>The schema dictionary: \<open>TrieNode\<close> and \<open>Trie\<close>\<close>

text \<open>
  A node owns a dictionary from characters to child nodes and the end-of-word flag.
  The dictionary is a Python \<open>defaultdict\<close>: it keeps its keys in insertion order, holds
  each key once, and creates a fresh node on a read of a missing key. It is modelled as
  an association list in insertion order, read with \<open>map_of\<close> and written with
  \<open>AList.update\<close> (which replaces the entry of a present key in place and appends the
  entry of a new one). The trie is polymorphic in the character type.
\<close>

datatype 'a TrieNode =
  TrieNode (children: "('a \<times> 'a TrieNode) list") (is_end_of_word: bool)

datatype 'a Trie = Trie (root: "'a TrieNode")

definition TrieNode_init :: "'a TrieNode" where
  "TrieNode_init = TrieNode [] False"

definition Trie_init :: "'a Trie" where
  "Trie_init = Trie TrieNode_init"

text \<open>\<open>node.children[char]\<close>: the child under \<open>char\<close>, a fresh node when there is none.\<close>

definition child :: "'a TrieNode \<Rightarrow> 'a \<Rightarrow> 'a TrieNode" where
  "child node c = (case map_of (children node) c of None \<Rightarrow> TrieNode_init | Some n \<Rightarrow> n)"

text \<open>
  \<open>Trie.insert\<close> walks down from the root, one child per character, and sets the flag of
  the node it ends on. The walk mutates the nodes in place; the model rebuilds the path.
\<close>

fun insert_node :: "'a list \<Rightarrow> 'a TrieNode \<Rightarrow> 'a TrieNode" where
  "insert_node [] node = TrieNode (children node) True"
| "insert_node (c # word) node =
     TrieNode (AList.update c (insert_node word (child node c)) (children node))
              (is_end_of_word node)"

definition Trie_insert :: "'a Trie \<Rightarrow> 'a list \<Rightarrow> 'a Trie" where
  "Trie_insert t word = Trie (insert_node word (root t))"

fun search_node :: "'a list \<Rightarrow> 'a TrieNode \<Rightarrow> bool" where
  "search_node [] node = is_end_of_word node"
| "search_node (c # word) node =
     (case map_of (children node) c of None \<Rightarrow> False | Some n \<Rightarrow> search_node word n)"

definition Trie_search :: "'a Trie \<Rightarrow> 'a list \<Rightarrow> bool" where
  "Trie_search t word = search_node word (root t)"

fun starts_with_node :: "'a list \<Rightarrow> 'a TrieNode \<Rightarrow> bool" where
  "starts_with_node [] node = True"
| "starts_with_node (c # pre) node =
     (case map_of (children node) c of None \<Rightarrow> False | Some n \<Rightarrow> starts_with_node pre n)"

definition Trie_starts_with :: "'a Trie \<Rightarrow> 'a list \<Rightarrow> bool" where
  "Trie_starts_with t pre = starts_with_node pre (root t)"

text \<open>
  \<open>Trie.get_all_words(node, prefix, words)\<close> appends to the shared list \<open>words\<close>: the
  prefix when the node ends a word, then the words below each child in dictionary
  order. The model returns the words appended by one call, in the same order.
\<close>

fun get_all_words :: "'a TrieNode \<Rightarrow> 'a list \<Rightarrow> 'a list list" where
  "get_all_words (TrieNode cs e) prefix =
     (if e then [prefix] else []) @
     concat (map (\<lambda>(c, n). get_all_words n (prefix @ [c])) cs)"

definition Trie_get_all_words :: "'a Trie \<Rightarrow> 'a list list" where
  "Trie_get_all_words t = get_all_words (root t) []"

text \<open>
  What a Python dictionary guarantees and an association list does not: every key once,
  in every node.
\<close>

fun wf_node :: "'a TrieNode \<Rightarrow> bool" where
  "wf_node (TrieNode cs e) = (distinct (map fst cs) \<and> (\<forall>(c, n) \<in> set cs. wf_node n))"

subsection \<open>Containment after insertion\<close>

lemma search_fresh: "search_node w TrieNode_init = False"
  by (cases w) (simp_all add: TrieNode_init_def)

lemma search_insert: "search_node v (insert_node w t) = (v = w \<or> search_node v t)"
proof (induction w arbitrary: v t)
  case Nil
  then show ?case by (cases v) simp_all
next
  case (Cons c w)
  show ?case
  proof (cases v)
    case Nil
    then show ?thesis by simp
  next
    case (Cons d u)
    then show ?thesis
      using Cons.IH [of u "child t c"]
      by (auto simp: update_conv' child_def search_fresh split: option.splits)
  qed
qed

lemma Trie_search_insert:
  "Trie_search (Trie_insert t w) v = (v = w \<or> Trie_search t v)"
  by (simp add: Trie_search_def Trie_insert_def search_insert)

lemma Trie_search_inserts:
  "Trie_search (foldl Trie_insert t ws) v = (v \<in> set ws \<or> Trie_search t v)"
  by (induction ws arbitrary: t) (auto simp: Trie_search_insert)

subsection \<open>Enumeration\<close>

lemma wf_children: "wf_node t \<Longrightarrow> distinct (map fst (children t))"
  by (cases t) simp

lemma wf_child: "wf_node t \<Longrightarrow> wf_node (child t c)"
  by (cases t) (auto simp: child_def TrieNode_init_def split: option.splits dest: map_of_SomeD)

lemma set_update_subset: "set (AList.update k v al) \<subseteq> insert (k, v) (set al)"
  by (induction al) auto

lemma wf_insert: "wf_node t \<Longrightarrow> wf_node (insert_node w t)"
proof (induction w arbitrary: t)
  case Nil
  then show ?case by (cases t) simp
next
  case (Cons c w)
  have "wf_node (insert_node w (child t c))"
    using Cons.IH Cons.prems by (simp add: wf_child)
  moreover have "\<forall>(d, n) \<in> set (children t). wf_node n"
    using Cons.prems by (cases t) simp
  ultimately show ?case
    using Cons.prems
    by (auto simp: distinct_update wf_children dest!: subsetD [OF set_update_subset])
qed

lemma wf_inserts: "wf_node (root t) \<Longrightarrow> wf_node (root (foldl Trie_insert t ws))"
  by (induction ws arbitrary: t) (simp_all add: Trie_insert_def wf_insert)

lemma words_prefix: "w \<in> set (get_all_words t p) \<Longrightarrow> \<exists>u. w = p @ u"
proof (induction t p arbitrary: w rule: get_all_words.induct)
  case (1 cs e prefix)
  then show ?case by (fastforce split: if_splits)
qed

lemma set_words:
  "wf_node t \<Longrightarrow> set (get_all_words t p) = {p @ w | w. search_node w t}"
proof (induction t p rule: get_all_words.induct)
  case (1 cs e prefix)
  have kids: "set (get_all_words n (prefix @ [c])) = {(prefix @ [c]) @ w | w. search_node w n}"
    if "(c, n) \<in> set cs" for c n
    using 1 that by auto
  have dist: "distinct (map fst cs)" using 1 by simp
  show ?case
  proof (intro set_eqI iffI)
    fix x
    assume "x \<in> set (get_all_words (TrieNode cs e) prefix)"
    then consider "e" "x = prefix"
      | c n where "(c, n) \<in> set cs" "x \<in> set (get_all_words n (prefix @ [c]))"
      by (auto split: if_splits)
    then show "x \<in> {prefix @ w | w. search_node w (TrieNode cs e)}"
    proof cases
      case 1
      then have "x = prefix @ [] \<and> search_node [] (TrieNode cs e)" by simp
      then show ?thesis by blast
    next
      case 2
      then obtain w where w: "x = (prefix @ [c]) @ w" "search_node w n"
        using kids by blast
      have "map_of cs c = Some n" using 2(1) dist by simp
      then have "x = prefix @ (c # w) \<and> search_node (c # w) (TrieNode cs e)"
        using w by simp
      then show ?thesis by blast
    qed
  next
    fix x
    assume "x \<in> {prefix @ w | w. search_node w (TrieNode cs e)}"
    then obtain w where w: "x = prefix @ w" "search_node w (TrieNode cs e)" by blast
    show "x \<in> set (get_all_words (TrieNode cs e) prefix)"
    proof (cases w)
      case Nil
      then show ?thesis using w by simp
    next
      case (Cons c u)
      then obtain n where n: "map_of cs c = Some n" "search_node u n"
        using w by (auto split: option.splits)
      then have mem: "(c, n) \<in> set cs" by (simp add: map_of_SomeD)
      then have "x \<in> set (get_all_words n (prefix @ [c]))"
        using kids [OF mem] n w Cons by auto
      then show ?thesis using mem by auto
    qed
  qed
qed

lemma distinct_concat_map:
  "distinct (map fst cs) \<Longrightarrow>
   (\<And>c n. (c, n) \<in> set cs \<Longrightarrow> distinct (f c n)) \<Longrightarrow>
   (\<And>c n d m. (c, n) \<in> set cs \<Longrightarrow> (d, m) \<in> set cs \<Longrightarrow> c \<noteq> d \<Longrightarrow>
      set (f c n) \<inter> set (f d m) = {}) \<Longrightarrow>
   distinct (concat (map (\<lambda>(c, n). f c n) cs))"
proof (induction cs)
  case Nil
  then show ?case by simp
next
  case (Cons a cs)
  obtain c n where a: "a = (c, n)" by (cases a)
  have "distinct (concat (map (\<lambda>(c, n). f c n) cs))"
    using Cons by auto
  moreover have "distinct (f c n)" using Cons.prems(2) a by simp
  moreover have "set (f c n) \<inter> set (f d m) = {}" if "(d, m) \<in> set cs" for d m
  proof -
    have "c \<noteq> d" using Cons.prems(1) a that by force
    then show ?thesis using Cons.prems(3) [of c n d m] a that by simp
  qed
  ultimately show ?case using a by auto
qed

lemma distinct_words: "wf_node t \<Longrightarrow> distinct (get_all_words t p)"
proof (induction t p rule: get_all_words.induct)
  case (1 cs e prefix)
  have kids: "distinct (get_all_words n (prefix @ [c]))" if "(c, n) \<in> set cs" for c n
    using 1 that by auto
  have disj: "set (get_all_words n (prefix @ [c])) \<inter> set (get_all_words m (prefix @ [d])) = {}"
    if "c \<noteq> d" for c d n m
  proof (rule ccontr)
    assume "\<not> ?thesis"
    then obtain x where "x \<in> set (get_all_words n (prefix @ [c]))"
      "x \<in> set (get_all_words m (prefix @ [d]))" by blast
    then obtain u v where "x = (prefix @ [c]) @ u" "x = (prefix @ [d]) @ v"
      using words_prefix by blast
    then show False using that by simp
  qed
  have "distinct (concat (map (\<lambda>(c, n). get_all_words n (prefix @ [c])) cs))"
    using 1(2) kids disj by (intro distinct_concat_map) auto
  moreover have "prefix \<notin> set (get_all_words n (prefix @ [c]))" for c n
    using words_prefix [of prefix n "prefix @ [c]"] by auto
  ultimately show ?case by auto
qed

lemma wf_Trie_init: "wf_node (root (Trie_init :: 'a Trie))"
  by (simp add: Trie_init_def TrieNode_init_def)

lemma Trie_search_init: "Trie_search Trie_init w = False"
  by (simp add: Trie_search_def Trie_init_def search_fresh)

text \<open>
  Claim C8. Whatever words are inserted into a fresh Trie, in whatever order (the list
  \<open>ws\<close> is any sequence of insertions, repeated words included), the enumeration
  holds exactly the inserted words, each of them once.
\<close>

theorem get_all_words_exact:
  "set (Trie_get_all_words (foldl Trie_insert Trie_init ws)) = set ws \<and>
   distinct (Trie_get_all_words (foldl Trie_insert Trie_init ws))"
proof -
  have wf: "wf_node (root (foldl Trie_insert (Trie_init :: 'a Trie) ws))"
    by (rule wf_inserts [OF wf_Trie_init])
  have "set (Trie_get_all_words (foldl Trie_insert Trie_init ws)) =
        {w. Trie_search (foldl Trie_insert Trie_init ws) w}"
    using set_words [OF wf, of "[]"] by (simp add: Trie_get_all_words_def Trie_search_def)
  then have "set (Trie_get_all_words (foldl Trie_insert Trie_init ws)) = set ws"
    by (simp add: Trie_search_inserts Trie_search_init)
  moreover have "distinct (Trie_get_all_words (foldl Trie_insert Trie_init ws))"
    using distinct_words [OF wf] by (simp add: Trie_get_all_words_def)
  ultimately show ?thesis by simp
qed

text \<open>
  Claim C9. In any Trie \<open>t\<close>, the search for a word \<open>w\<close> succeeds right after \<open>w\<close> is
  inserted (\<open>ws = []\<close>) and still succeeds after any further insertions \<open>ws\<close>.
\<close>

theorem search_after_insert:
  "Trie_search (foldl Trie_insert (Trie_insert t w) ws) w"
  by (simp add: Trie_search_inserts Trie_search_insert)

section \<open>Python strings\<close>

text \<open>
  A Python string is a sequence of code points. The model takes the code points below
  256 (Latin-1), one \<^typ>\<open>char\<close> each: they hold every letter of the program's own
  vocabularies, the accented Spanish letters included (\<open>CHR 0xE9\<close> is e-acute). The
  character classes below are Python's on that range.
\<close>

definition en_rango :: "char \<Rightarrow> char \<Rightarrow> char \<Rightarrow> bool" where
  "en_rango a b c = (a \<le> c \<and> c \<le> b)"

text \<open>
  \<open>str.lower\<close>: the upper-case letters are A-Z and 0xC0-0xDE without the
  multiplication sign 0xD7; the lower-case letter of each is 32 further on, which is
  the same code with bit 5 set.
\<close>

definition isupper_char :: "char \<Rightarrow> bool" where
  "isupper_char c =
     (en_rango CHR ''A'' CHR ''Z'' c \<or> en_rango (CHR 0xC0) (CHR 0xD6) c \<or>
      en_rango (CHR 0xD8) (CHR 0xDE) c)"

definition lower_char :: "char \<Rightarrow> char" where
  "lower_char c =
     (if isupper_char c
      then (case c of Char b0 b1 b2 b3 b4 b5 b6 b7 \<Rightarrow> Char b0 b1 b2 b3 b4 True b6 b7)
      else c)"

definition lower :: "string \<Rightarrow> string" where
  "lower s = map lower_char s"

lemma lower_char_codigo:
  "of_char (lower_char c) = (if isupper_char c then of_char c + 32 else (of_char c :: nat))"
  by (cases c) (auto simp add: lower_char_def isupper_char_def en_rango_def less_eq_char_def)

text \<open>\<open>str.isspace\<close>, the separators of \<open>str.split()\<close>.\<close>

definition isspace_char :: "char \<Rightarrow> bool" where
  "isspace_char c =
     (en_rango (CHR 0x09) (CHR 0x0D) c \<or> en_rango (CHR 0x1C) (CHR 0x20) c \<or>
      c = CHR 0x85 \<or> c = CHR 0xA0)"

text \<open>
  The decimal digits (the regular expressions' \<open>\d\<close>) are 0-9. \<open>str.isdigit\<close> also
  accepts the superscript digits 0xB2, 0xB3 and 0xB9, and is false of the empty string.
\<close>

definition isdecimal_char :: "char \<Rightarrow> bool" where
  "isdecimal_char c = en_rango CHR ''0'' CHR ''9'' c"

definition isdigit_char :: "char \<Rightarrow> bool" where
  "isdigit_char c = (isdecimal_char c \<or> c = CHR 0xB2 \<or> c = CHR 0xB3 \<or> c = CHR 0xB9)"

definition isdigit :: "string \<Rightarrow> bool" where
  "isdigit s = (s \<noteq> [] \<and> list_all isdigit_char s)"

text \<open>
  The regular expressions' \<open>\w\<close>: the alphanumeric characters (letters, digits and the
  numeric characters such as the vulgar fractions 0xBC-0xBE) and the underscore.
\<close>

definition isword_char :: "char \<Rightarrow> bool" where
  "isword_char c =
     (en_rango CHR ''a'' CHR ''z'' c \<or> en_rango CHR ''A'' CHR ''Z'' c \<or> isdigit_char c \<or>
      c = CHR ''_'' \<or> c = CHR 0xAA \<or> c = CHR 0xB5 \<or> c = CHR 0xBA \<or>
      en_rango (CHR 0xBC) (CHR 0xBE) c \<or> en_rango (CHR 0xC0) (CHR 0xD6) c \<or>
      en_rango (CHR 0xD8) (CHR 0xF6) c \<or> en_rango (CHR 0xF8) (CHR 0xFF) c)"

text \<open>\<open>string.punctuation\<close>: the 32 punctuation characters of ASCII.\<close>

definition punctuation :: string where
  "punctuation =
     [CHR 0x21, CHR 0x22] @ ''#$%&'' @ [CHR 0x27] @ ''()*+,-./:;<=>?@['' @ [CHR 0x5C] @
     '']^_'' @ [CHR 0x60] @ ''{|}~''"

lemma punctuation_32: "length punctuation = 32 \<and> distinct punctuation"
  by (simp add: punctuation_def)

definition lstrip :: "string \<Rightarrow> string \<Rightarrow> string" where
  "lstrip chars s = dropWhile (\<lambda>c. c \<in> set chars) s"

definition rstrip :: "string \<Rightarrow> string \<Rightarrow> string" where
  "rstrip chars s = rev (dropWhile (\<lambda>c. c \<in> set chars) (rev s))"

definition strip :: "string \<Rightarrow> string \<Rightarrow> string" where
  "strip chars s = rstrip chars (lstrip chars s)"

text \<open>\<open>str.split()\<close>: the maximal runs of characters that are not white space.\<close>

fun split_aux :: "string \<Rightarrow> string \<Rightarrow> string list" where
  "split_aux w [] = (if w = [] then [] else [w])"
| "split_aux w (c # cs) =
     (if isspace_char c then (if w = [] then split_aux [] cs else w # split_aux [] cs)
      else split_aux (w @ [c]) cs)"

definition split :: "string \<Rightarrow> string list" where
  "split s = split_aux [] s"

fun join :: "string \<Rightarrow> string list \<Rightarrow> string" where
  "join sep [] = []"
| "join sep [x] = x"
| "join sep (x # y # ys) = x @ sep @ join sep (y # ys)"

section \<open>Regular expressions of the program\<close>

text \<open>
  The patterns of the program are sequences of bounded or unbounded repetitions of a
  character class: \<open>\d{4}\<close> is \<open>Rep Digit 4 (Some 4)\<close>, \<open>[a-z]+\<close> is
  \<open>Rep LowerAZ 1 None\<close>, a literal character is a class repeated once.
  \<open>rests p s\<close> lists what is left of \<open>s\<close> after each way of matching \<open>p\<close> at its start
  (longest repetition first, as the backtracking matcher tries them). \<open>re.fullmatch\<close>
  succeeds when some way leaves nothing, \<open>re.match\<close> when there is a way at all.
\<close>

datatype atom = Digit | LowerAZ | Lit char

fun match_atom :: "atom \<Rightarrow> char \<Rightarrow> bool" where
  "match_atom Digit c = isdecimal_char c"
| "match_atom LowerAZ c = en_rango CHR ''a'' CHR ''z'' c"
| "match_atom (Lit d) c = (c = d)"

datatype item = Rep atom nat "nat option"

fun rep_rests :: "atom \<Rightarrow> nat \<Rightarrow> nat option \<Rightarrow> string \<Rightarrow> string list" where
  "rep_rests a lo hi [] = (if lo = 0 then [[]] else [])"
| "rep_rests a lo hi (c # cs) =
     (if match_atom a c \<and> hi \<noteq> Some 0
      then rep_rests a (lo - 1) (map_option (\<lambda>h. h - 1) hi) cs
      else []) @
     (if lo = 0 then [c # cs] else [])"

fun rests :: "item list \<Rightarrow> string \<Rightarrow> string list" where
  "rests [] s = [s]"
| "rests (Rep a lo hi # its) s = concat (map (rests its) (rep_rests a lo hi s))"

definition re_fullmatch :: "item list \<Rightarrow> string \<Rightarrow> bool" where
  "re_fullmatch p s = ([] \<in> set (rests p s))"

definition re_match :: "item list \<Rightarrow> string \<Rightarrow> bool" where
  "re_match p s = (rests p s \<noteq> [])"

definition d :: "nat \<Rightarrow> item" where
  "d n = Rep Digit n (Some n)"

definition lit :: "string \<Rightarrow> item list" where
  "lit s = map (\<lambda>c. Rep (Lit c) 1 (Some 1)) s"

subsection \<open>Dates\<close>

text \<open>The long form \<open>\d{1,2} de [a-z]+ de \d{4}\<close>, used by the recognizer and by the SQL generator.\<close>

definition fecha_larga :: "item list" where
  "fecha_larga =
     [Rep Digit 1 (Some 2)] @ lit '' de '' @ [Rep LowerAZ 1 None] @ lit '' de '' @ [d 4]"

definition FORMATOS_FECHA :: "item list list" where
  "FORMATOS_FECHA =
    [[d 4] @ lit ''-'' @ [d 2] @ lit ''-'' @ [d 2],
     [d 2] @ lit ''/'' @ [d 2] @ lit ''/'' @ [d 4],
     [d 2] @ lit ''-'' @ [d 2] @ lit ''-'' @ [d 4],
     fecha_larga]"

definition es_fecha :: "string \<Rightarrow> bool" where
  "es_fecha texto = list_ex (\<lambda>formato. re_fullmatch formato (lower texto)) FORMATOS_FECHA"

lemmas eval_cadenas =
  lower_def lower_char_def isupper_char_def en_rango_def isdecimal_char_def isdigit_char_def
  isdigit_def isword_char_def isspace_char_def punctuation_def lstrip_def rstrip_def strip_def
  split_def

lemmas eval_fecha =
  es_fecha_def FORMATOS_FECHA_def fecha_larga_def lit_def d_def re_fullmatch_def re_match_def

subsection \<open>What the matcher accepts\<close>

text \<open>The upper bound of a repetition: \<open>None\<close> is no bound.\<close>

definition hasta :: "nat option \<Rightarrow> nat \<Rightarrow> bool" where
  "hasta hi n = (case hi of None \<Rightarrow> True | Some h \<Rightarrow> n \<le> h)"

lemma hasta_Suc:
  "hasta hi (Suc n) = (hi \<noteq> Some 0 \<and> hasta (map_option (\<lambda>h. h - 1) hi) n)"
  by (cases hi) (auto simp: hasta_def)

lemma rep_rests_sound:
  "r \<in> set (rep_rests a lo hi s) \<Longrightarrow>
   \<exists>w. s = w @ r \<and> lo \<le> length w \<and> hasta hi (length w) \<and> list_all (match_atom a) w"
proof (induction s arbitrary: lo hi)
  case Nil
  then have "lo = 0" "r = []" by (simp_all split: if_splits)
  then show ?case by (simp add: hasta_def split: option.split)
next
  case (Cons c cs)
  from Cons.prems consider
      (paso) "match_atom a c" "hi \<noteq> Some 0"
        "r \<in> set (rep_rests a (lo - 1) (map_option (\<lambda>h. h - 1) hi) cs)"
    | (fin) "lo = 0" "r = c # cs"
    by (simp split: if_splits) blast
  then show ?case
  proof cases
    case paso
    obtain w where w: "cs = w @ r" "lo - 1 \<le> length w"
      "hasta (map_option (\<lambda>h. h - 1) hi) (length w)" "list_all (match_atom a) w"
      using Cons.IH [OF paso(3)] by blast
    have "c # cs = (c # w) @ r" using w(1) by simp
    moreover have "lo \<le> length (c # w)" using w(2) by simp
    moreover have "hasta hi (length (c # w))" using w(3) paso(2) by (simp add: hasta_Suc)
    moreover have "list_all (match_atom a) (c # w)" using w(4) paso(1) by simp
    ultimately show ?thesis by blast
  next
    case fin
    have "c # cs = [] @ r" using fin by simp
    moreover have "hasta hi (length ([] :: string))"
      by (simp add: hasta_def split: option.split)
    ultimately show ?thesis using fin(1) by (intro exI [of _ "[]"]) simp
  qed
qed

lemma rep_rests_complete:
  "list_all (match_atom a) w \<Longrightarrow> lo \<le> length w \<Longrightarrow> hasta hi (length w) \<Longrightarrow>
   r \<in> set (rep_rests a lo hi (w @ r))"
proof (induction w arbitrary: lo hi)
  case Nil
  then show ?case by (cases r) simp_all
next
  case (Cons x w)
  have h: "hi \<noteq> Some 0" "hasta (map_option (\<lambda>h. h - 1) hi) (length w)"
    using Cons.prems(3) by (simp_all add: hasta_Suc)
  have "r \<in> set (rep_rests a (lo - 1) (map_option (\<lambda>h. h - 1) hi) (w @ r))"
    using Cons.prems(1,2) h(2) by (intro Cons.IH) simp_all
  then show ?case using Cons.prems(1) h(1) by simp
qed

lemma rep_rests_iff:
  "r \<in> set (rep_rests a lo hi s) =
     (\<exists>w. s = w @ r \<and> lo \<le> length w \<and> hasta hi (length w) \<and> list_all (match_atom a) w)"
  using rep_rests_sound rep_rests_complete by blast

text \<open>
  The parts of a date shape: \<open>digitos n w\<close> says that \<open>w\<close> is \<open>n\<close> decimal digits,
  \<open>minusculas w\<close> that \<open>w\<close> is one or more letters a-z.
\<close>

definition digitos :: "nat \<Rightarrow> string \<Rightarrow> bool" where
  "digitos n w = (length w = n \<and> list_all isdecimal_char w)"

definition minusculas :: "string \<Rightarrow> bool" where
  "minusculas w = (w \<noteq> [] \<and> list_all (en_rango CHR ''a'' CHR ''z'') w)"

lemma rests_Rep:
  "r \<in> set (rests (Rep a lo hi # its) s) =
     (\<exists>w r1. s = w @ r1 \<and> (lo \<le> length w \<and> hasta hi (length w) \<and> list_all (match_atom a) w) \<and>
          r \<in> set (rests its r1))"
proof -
  have "r \<in> set (rests (Rep a lo hi # its) s) =
        (\<exists>r1. r1 \<in> set (rep_rests a lo hi s) \<and> r \<in> set (rests its r1))"
    by (simp add: Bex_def)
  also have "\<dots> = (\<exists>r1. (\<exists>w. s = w @ r1 \<and> lo \<le> length w \<and> hasta hi (length w) \<and>
        list_all (match_atom a) w) \<and> r \<in> set (rests its r1))"
    by (simp only: rep_rests_iff)
  also have "\<dots> = (\<exists>w r1. s = w @ r1 \<and> (lo \<le> length w \<and> hasta hi (length w) \<and>
        list_all (match_atom a) w) \<and> r \<in> set (rests its r1))"
    by blast
  finally show ?thesis .
qed

lemma match_Digit: "list_all (match_atom Digit) w = list_all isdecimal_char w"
  by (induction w) simp_all

lemma match_LowerAZ: "list_all (match_atom LowerAZ) w = list_all (en_rango CHR ''a'' CHR ''z'') w"
  by (induction w) simp_all

lemma rests_d:
  "r \<in> set (rests (d n # its) s) =
     (\<exists>w r1. s = w @ r1 \<and> digitos n w \<and> r \<in> set (rests its r1))"
proof -
  have "(n \<le> length w \<and> hasta (Some n) (length w) \<and> list_all (match_atom Digit) w) =
        digitos n w" for w
    unfolding digitos_def match_Digit hasta_def by (simp add: eq_iff conj_commute)
  then show ?thesis unfolding d_def rests_Rep by (simp only:)
qed

lemma rests_d12:
  "r \<in> set (rests (Rep Digit 1 (Some 2) # its) s) =
     (\<exists>w r1. s = w @ r1 \<and> (digitos 1 w \<or> digitos 2 w) \<and> r \<in> set (rests its r1))"
proof -
  have "(1 \<le> length w \<and> hasta (Some 2) (length w) \<and> list_all (match_atom Digit) w) =
        (digitos 1 w \<or> digitos 2 w)" for w
    unfolding digitos_def match_Digit hasta_def by (simp, arith)
  then show ?thesis unfolding rests_Rep by (simp only:)
qed

lemma rests_az:
  "r \<in> set (rests (Rep LowerAZ 1 None # its) s) =
     (\<exists>w r1. s = w @ r1 \<and> minusculas w \<and> r \<in> set (rests its r1))"
proof -
  have "(1 \<le> length w \<and> hasta None (length w) \<and> list_all (match_atom LowerAZ) w) =
        minusculas w" for w
    unfolding minusculas_def match_LowerAZ hasta_def by (cases w) simp_all
  then show ?thesis unfolding rests_Rep by (simp only:)
qed

lemma rests_lit1:
  "r \<in> set (rests (Rep (Lit c) 1 (Some 1) # its) s) =
     (\<exists>r1. s = c # r1 \<and> r \<in> set (rests its r1))"
proof -
  have one: "(1 \<le> length w \<and> hasta (Some 1) (length w) \<and> list_all (match_atom (Lit c)) w) =
       (w = [c])" for w
  proof (cases w)
    case Nil
    then show ?thesis by simp
  next
    case (Cons x xs)
    then show ?thesis by (cases xs) (simp_all add: hasta_def)
  qed
  have "r \<in> set (rests (Rep (Lit c) 1 (Some 1) # its) s) =
        (\<exists>w r1. s = w @ r1 \<and> w = [c] \<and> r \<in> set (rests its r1))"
    unfolding rests_Rep by (simp only: one)
  also have "\<dots> = (\<exists>r1. s = c # r1 \<and> r \<in> set (rests its r1))"
    by simp
  finally show ?thesis .
qed

lemma rests_lit:
  "r \<in> set (rests (lit l @ its) s) = (\<exists>r1. s = l @ r1 \<and> r \<in> set (rests its r1))"
proof (induction l arbitrary: s)
  case Nil
  then show ?case by (simp add: lit_def)
next
  case (Cons c l)
  have "lit (c # l) @ its = Rep (Lit c) 1 (Some 1) # (lit l @ its)"
    by (simp add: lit_def)
  then have "r \<in> set (rests (lit (c # l) @ its) s) =
        (\<exists>r1. s = c # r1 \<and> r \<in> set (rests (lit l @ its) r1))"
    by (simp only: rests_lit1)
  also have "\<dots> = (\<exists>r1. s = c # r1 \<and> (\<exists>r2. r1 = l @ r2 \<and> r \<in> set (rests its r2)))"
    by (simp only: Cons.IH)
  also have "\<dots> = (\<exists>r2. s = (c # l) @ r2 \<and> r \<in> set (rests its r2))"
    by (simp only: append_Cons) blast
  finally show ?case .
qed

lemma rests_fin: "([] \<in> set (rests [] s)) = (s = [])"
  by auto

lemma forma_numerica:
  "re_fullmatch ([d n1] @ lit l1 @ [d n2] @ lit l2 @ [d n3]) s =
     (\<exists>a b c. s = a @ l1 @ b @ l2 @ c \<and> digitos n1 a \<and> digitos n2 b \<and> digitos n3 c)"
proof -
  have "re_fullmatch ([d n1] @ lit l1 @ [d n2] @ lit l2 @ [d n3]) s =
     (\<exists>a r1. s = a @ r1 \<and> digitos n1 a \<and>
        (\<exists>r2. r1 = l1 @ r2 \<and>
          (\<exists>b r3. r2 = b @ r3 \<and> digitos n2 b \<and>
            (\<exists>r4. r3 = l2 @ r4 \<and>
              (\<exists>c r5. r4 = c @ r5 \<and> digitos n3 c \<and> r5 = [])))))"
    unfolding re_fullmatch_def
    by (simp only: append_Cons append_Nil rests_d rests_lit rests_fin)
  also have "\<dots> =
     (\<exists>a b c. s = a @ l1 @ b @ l2 @ c \<and> digitos n1 a \<and> digitos n2 b \<and> digitos n3 c)"
  proof
    assume "\<exists>a r1. s = a @ r1 \<and> digitos n1 a \<and>
        (\<exists>r2. r1 = l1 @ r2 \<and>
          (\<exists>b r3. r2 = b @ r3 \<and> digitos n2 b \<and>
            (\<exists>r4. r3 = l2 @ r4 \<and>
              (\<exists>c r5. r4 = c @ r5 \<and> digitos n3 c \<and> r5 = []))))"
    then obtain a b c where "s = a @ l1 @ b @ l2 @ c @ []"
      "digitos n1 a" "digitos n2 b" "digitos n3 c"
      by blast
    then show "\<exists>a b c. s = a @ l1 @ b @ l2 @ c \<and> digitos n1 a \<and> digitos n2 b \<and> digitos n3 c"
      by auto
  next
    assume "\<exists>a b c. s = a @ l1 @ b @ l2 @ c \<and> digitos n1 a \<and> digitos n2 b \<and> digitos n3 c"
    then obtain a b c where abc: "s = a @ l1 @ b @ l2 @ c"
      "digitos n1 a" "digitos n2 b" "digitos n3 c"
      by blast
    have "\<exists>c' r5. c = c' @ r5 \<and> digitos n3 c' \<and> r5 = []"
      using abc(4) by simp
    then have "\<exists>r4. l2 @ c = l2 @ r4 \<and> (\<exists>c' r5. r4 = c' @ r5 \<and> digitos n3 c' \<and> r5 = [])"
      by blast
    then have "\<exists>b' r3. b @ l2 @ c = b' @ r3 \<and> digitos n2 b' \<and>
        (\<exists>r4. r3 = l2 @ r4 \<and> (\<exists>c' r5. r4 = c' @ r5 \<and> digitos n3 c' \<and> r5 = []))"
      using abc(3) by blast
    then have "\<exists>r2. l1 @ b @ l2 @ c = l1 @ r2 \<and> (\<exists>b' r3. r2 = b' @ r3 \<and> digitos n2 b' \<and>
        (\<exists>r4. r3 = l2 @ r4 \<and> (\<exists>c' r5. r4 = c' @ r5 \<and> digitos n3 c' \<and> r5 = [])))"
      by blast
    then show "\<exists>a r1. s = a @ r1 \<and> digitos n1 a \<and>
        (\<exists>r2. r1 = l1 @ r2 \<and>
          (\<exists>b r3. r2 = b @ r3 \<and> digitos n2 b \<and>
            (\<exists>r4. r3 = l2 @ r4 \<and>
              (\<exists>c r5. r4 = c @ r5 \<and> digitos n3 c \<and> r5 = []))))"
      using abc(1,2) by blast
  qed
  finally show ?thesis .
qed

lemma forma_larga:
  "re_fullmatch fecha_larga s =
     (\<exists>dd mes a. s = dd @ '' de '' @ mes @ '' de '' @ a \<and>
        (digitos 1 dd \<or> digitos 2 dd) \<and> minusculas mes \<and> digitos 4 a)"
proof -
  have "re_fullmatch fecha_larga s =
     (\<exists>dd r1. s = dd @ r1 \<and> (digitos 1 dd \<or> digitos 2 dd) \<and>
        (\<exists>r2. r1 = '' de '' @ r2 \<and>
          (\<exists>mes r3. r2 = mes @ r3 \<and> minusculas mes \<and>
            (\<exists>r4. r3 = '' de '' @ r4 \<and>
              (\<exists>a r5. r4 = a @ r5 \<and> digitos 4 a \<and> r5 = [])))))"
    unfolding re_fullmatch_def fecha_larga_def
    by (simp only: append_Cons append_Nil rests_d rests_d12 rests_az rests_lit rests_fin)
  also have "\<dots> =
     (\<exists>dd mes a. s = dd @ '' de '' @ mes @ '' de '' @ a \<and>
        (digitos 1 dd \<or> digitos 2 dd) \<and> minusculas mes \<and> digitos 4 a)"
  proof
    assume "\<exists>dd r1. s = dd @ r1 \<and> (digitos 1 dd \<or> digitos 2 dd) \<and>
        (\<exists>r2. r1 = '' de '' @ r2 \<and>
          (\<exists>mes r3. r2 = mes @ r3 \<and> minusculas mes \<and>
            (\<exists>r4. r3 = '' de '' @ r4 \<and>
              (\<exists>a r5. r4 = a @ r5 \<and> digitos 4 a \<and> r5 = []))))"
    then obtain dd mes a where "s = dd @ '' de '' @ mes @ '' de '' @ a @ []"
      "digitos 1 dd \<or> digitos 2 dd" "minusculas mes" "digitos 4 a"
      by blast
    then show "\<exists>dd mes a. s = dd @ '' de '' @ mes @ '' de '' @ a \<and>
        (digitos 1 dd \<or> digitos 2 dd) \<and> minusculas mes \<and> digitos 4 a"
      by auto
  next
    assume "\<exists>dd mes a. s = dd @ '' de '' @ mes @ '' de '' @ a \<and>
        (digitos 1 dd \<or> digitos 2 dd) \<and> minusculas mes \<and> digitos 4 a"
    then obtain dd mes a where abc: "s = dd @ '' de '' @ mes @ '' de '' @ a"
      "digitos 1 dd \<or> digitos 2 dd" "minusculas mes" "digitos 4 a"
      by blast
    have "\<exists>a' r5. a = a' @ r5 \<and> digitos 4 a' \<and> r5 = []"
      using abc(4) by simp
    then have "\<exists>r4. '' de '' @ a = '' de '' @ r4 \<and>
        (\<exists>a' r5. r4 = a' @ r5 \<and> digitos 4 a' \<and> r5 = [])"
      by blast
    then have "\<exists>m' r3. mes @ '' de '' @ a = m' @ r3 \<and> minusculas m' \<and>
        (\<exists>r4. r3 = '' de '' @ r4 \<and> (\<exists>a' r5. r4 = a' @ r5 \<and> digitos 4 a' \<and> r5 = []))"
      using abc(3) by blast
    then have "\<exists>r2. '' de '' @ mes @ '' de '' @ a = '' de '' @ r2 \<and>
        (\<exists>m' r3. r2 = m' @ r3 \<and> minusculas m' \<and>
        (\<exists>r4. r3 = '' de '' @ r4 \<and> (\<exists>a' r5. r4 = a' @ r5 \<and> digitos 4 a' \<and> r5 = [])))"
      by blast
    then show "\<exists>dd r1. s = dd @ r1 \<and> (digitos 1 dd \<or> digitos 2 dd) \<and>
        (\<exists>r2. r1 = '' de '' @ r2 \<and>
          (\<exists>mes r3. r2 = mes @ r3 \<and> minusculas mes \<and>
            (\<exists>r4. r3 = '' de '' @ r4 \<and>
              (\<exists>a r5. r4 = a @ r5 \<and> digitos 4 a \<and> r5 = []))))"
      using abc(1,2) by blast
  qed
  finally show ?thesis .
qed

text \<open>
  Claim C4. For every text, the recognizer accepts it exactly when the whole
  lower-cased text has one of the four shapes: four digits, hyphen, two digits, hyphen,
  two digits; two digits, slash, two digits, slash, four digits; the same with hyphens;
  or one or two digits, \<open>de\<close>, a word of letters a-z, \<open>de\<close>, four digits, separated by
  single spaces. Nothing may stand before or after the shape. So the four strings of the
  claim are dates, and the year-first form with slashes is not.
\<close>

theorem es_fecha_formas:
  "es_fecha texto =
    ((\<exists>a m dd. lower texto = a @ ''-'' @ m @ ''-'' @ dd \<and>
        digitos 4 a \<and> digitos 2 m \<and> digitos 2 dd) \<or>
     (\<exists>dd m a. lower texto = dd @ ''/'' @ m @ ''/'' @ a \<and>
        digitos 2 dd \<and> digitos 2 m \<and> digitos 4 a) \<or>
     (\<exists>dd m a. lower texto = dd @ ''-'' @ m @ ''-'' @ a \<and>
        digitos 2 dd \<and> digitos 2 m \<and> digitos 4 a) \<or>
     (\<exists>dd mes a. lower texto = dd @ '' de '' @ mes @ '' de '' @ a \<and>
        (digitos 1 dd \<or> digitos 2 dd) \<and> minusculas mes \<and> digitos 4 a)) \<and>
   es_fecha ''2025-07-21'' \<and> es_fecha ''21/07/2025'' \<and> es_fecha ''21-07-2025'' \<and>
   es_fecha ''21 de julio de 2025'' \<and> \<not> es_fecha ''2025/07/21''"
proof -
  have "es_fecha texto =
    ((\<exists>a m dd. lower texto = a @ ''-'' @ m @ ''-'' @ dd \<and>
        digitos 4 a \<and> digitos 2 m \<and> digitos 2 dd) \<or>
     (\<exists>dd m a. lower texto = dd @ ''/'' @ m @ ''/'' @ a \<and>
        digitos 2 dd \<and> digitos 2 m \<and> digitos 4 a) \<or>
     (\<exists>dd m a. lower texto = dd @ ''-'' @ m @ ''-'' @ a \<and>
        digitos 2 dd \<and> digitos 2 m \<and> digitos 4 a) \<or>
     (\<exists>dd mes a. lower texto = dd @ '' de '' @ mes @ '' de '' @ a \<and>
        (digitos 1 dd \<or> digitos 2 dd) \<and> minusculas mes \<and> digitos 4 a))"
    unfolding es_fecha_def FORMATOS_FECHA_def
    by (simp only: list_ex_Cons_iff list_ex_Nil_iff forma_numerica forma_larga simp_thms)
  moreover have "es_fecha ''2025-07-21''" by (simp add: eval_fecha eval_cadenas)
  moreover have "es_fecha ''21/07/2025''" by (simp add: eval_fecha eval_cadenas)
  moreover have "es_fecha ''21-07-2025''" by (simp add: eval_fecha eval_cadenas)
  moreover have "es_fecha ''21 de julio de 2025''" by (simp add: eval_fecha eval_cadenas)
  moreover have "\<not> es_fecha ''2025/07/21''" by (simp add: eval_fecha eval_cadenas)
  ultimately show ?thesis by (simp only: simp_thms)
qed

section \<open>The operator normalizer\<close>

text \<open>
  \<open>re.sub(r'\b' + re.escape(frase) + r'\b', reemplazo, texto, count)\<close> for a
  replacement that stands for itself (one without a backslash, as the symbols of the
  mapping are): the text is scanned from the left; where the phrase stands between two
  word boundaries it is replaced and the scan goes on behind it, elsewhere one character
  is copied. A word boundary lies between a word character and a character that is none
  (or an end of the text). \<open>cuenta\<close> is the number of replacements still allowed,
  \<open>None\<close> for no limit; \<open>previo\<close> is the character before the scan position in the
  text. For the empty phrase the pattern is \<open>\b\b\<close>: it matches the empty string at
  every word boundary, the end of the text included, and after such a match the scan
  copies one character and goes on.
\<close>

definition isword_opt :: "char option \<Rightarrow> bool" where
  "isword_opt oc = (case oc of None \<Rightarrow> False | Some c \<Rightarrow> isword_char c)"

definition limite :: "char option \<Rightarrow> char option \<Rightarrow> bool" where
  "limite antes despues = (isword_opt antes \<noteq> isword_opt despues)"

definition siguiente :: "string \<Rightarrow> char option" where
  "siguiente s = (case s of [] \<Rightarrow> None | c # _ \<Rightarrow> Some c)"

definition coincide :: "string \<Rightarrow> char option \<Rightarrow> string \<Rightarrow> bool" where
  "coincide frase previo s =
     (take (length frase) s = frase \<and>
      limite previo (siguiente s) \<and>
      limite (if frase = [] then previo else Some (last frase))
        (siguiente (drop (length frase) s)))"

fun sub_limites :: "string \<Rightarrow> string \<Rightarrow> nat option \<Rightarrow> char option \<Rightarrow> string \<Rightarrow> string" where
  "sub_limites frase reemplazo cuenta previo [] =
     (if frase = [] \<and> cuenta \<noteq> Some 0 \<and> limite previo None then reemplazo else [])"
| "sub_limites frase reemplazo cuenta previo (c # cs) =
     (if cuenta \<noteq> Some 0 \<and> coincide frase previo (c # cs)
      then (if frase = []
            then reemplazo @
                 c # sub_limites frase reemplazo (map_option (\<lambda>n. n - 1) cuenta) (Some c) cs
            else reemplazo @
                 sub_limites frase reemplazo (map_option (\<lambda>n. n - 1) cuenta)
                   (Some (last frase)) (drop (length frase - 1) cs))
      else c # sub_limites frase reemplazo cuenta (Some c) cs)"

definition re_sub_limites :: "string \<Rightarrow> string \<Rightarrow> nat option \<Rightarrow> string \<Rightarrow> string" where
  "re_sub_limites frase reemplazo cuenta texto = sub_limites frase reemplazo cuenta None texto"

text \<open>The dictionary \<open>mapeo\<close>, in its order of definition, which is the order of the loop.\<close>

definition mapeo :: "(string \<times> string) list" where
  "mapeo =
    [(''mayor o igual que'', ''>=''),
     (''menor o igual que'', ''<=''),
     (''mayor que'', ''>''),
     (''menor que'', ''<''),
     (''menor a'', ''<''),
     (''igual a'', ''=''),
     (''igual'', ''=''),
     (''no es'', ''!=''),
     (''diferente de'', ''!='')]"

definition reemplazar_operadores_compuestos :: "string \<Rightarrow> string" where
  "reemplazar_operadores_compuestos texto =
     foldl (\<lambda>t (frase, reemplazo). re_sub_limites frase reemplazo None t) (lower texto) mapeo"

lemmas eval_operadores =
  reemplazar_operadores_compuestos_def mapeo_def re_sub_limites_def coincide_def limite_def
  siguiente_def isword_opt_def

text \<open>
  Claim C3. Each phrase of the mapping, given as the whole input, is normalized to its
  symbol; in particular \<open>mayor o igual que\<close> becomes \<open>>=\<close>, which is not \<open>>\<close>: the
  longer phrase is replaced first, and nothing of it is left for \<open>mayor que\<close>.
\<close>

theorem reemplazar_operadores_frases:
  "reemplazar_operadores_compuestos ''mayor o igual que'' = ''>='' \<and>
   reemplazar_operadores_compuestos ''menor o igual que'' = ''<='' \<and>
   reemplazar_operadores_compuestos ''mayor que'' = ''>'' \<and>
   reemplazar_operadores_compuestos ''menor que'' = ''<'' \<and>
   reemplazar_operadores_compuestos ''menor a'' = ''<'' \<and>
   reemplazar_operadores_compuestos ''igual a'' = ''='' \<and>
   reemplazar_operadores_compuestos ''igual'' = ''='' \<and>
   reemplazar_operadores_compuestos ''no es'' = ''!='' \<and>
   reemplazar_operadores_compuestos ''diferente de'' = ''!='' \<and>
   reemplazar_operadores_compuestos ''mayor o igual que'' \<noteq> ''>''"
proof -
  have "reemplazar_operadores_compuestos ''mayor o igual que'' = ''>=''"
    by (simp add: eval_operadores eval_cadenas)
  moreover have "reemplazar_operadores_compuestos ''menor o igual que'' = ''<=''"
    by (simp add: eval_operadores eval_cadenas)
  moreover have "reemplazar_operadores_compuestos ''mayor que'' = ''>''"
    by (simp add: eval_operadores eval_cadenas)
  moreover have "reemplazar_operadores_compuestos ''menor que'' = ''<''"
    by (simp add: eval_operadores eval_cadenas)
  moreover have "reemplazar_operadores_compuestos ''menor a'' = ''<''"
    by (simp add: eval_operadores eval_cadenas)
  moreover have "reemplazar_operadores_compuestos ''igual a'' = ''=''"
    by (simp add: eval_operadores eval_cadenas)
  moreover have "reemplazar_operadores_compuestos ''igual'' = ''=''"
    by (simp add: eval_operadores eval_cadenas)
  moreover have "reemplazar_operadores_compuestos ''no es'' = ''!=''"
    by (simp add: eval_operadores eval_cadenas)
  moreover have "reemplazar_operadores_compuestos ''diferente de'' = ''!=''"
    by (simp add: eval_operadores eval_cadenas)
  ultimately show ?thesis by simp
qed

section \<open>Tokens, conditions and the structured query\<close>

text \<open>
  A token is the pair of its kind and its literal, both strings. The structured query
  is the dictionary \<open>estructura\<close>; its key \<open>atributos_mostrar\<close> is absent (\<open>None\<close>) until
  the parser appends the first attribute to show. A condition is a dictionary of three
  strings.
\<close>

type_synonym token = "string \<times> string"

record condicion =
  atributo :: string
  operador :: string
  valor :: string

record estructura =
  accion :: "string option"
  entidad :: "string option"
  condiciones :: "condicion list"
  atributos_mostrar :: "string list option"

text \<open>
  The exceptions of the modelled code: a list index out of range, a missing dictionary
  key, the end of the input in the interactive correction, and the \<open>re.error\<close> of a
  replacement template that does not parse. A computation that can
  raise returns a sum, the exception on the left; \<open>bindE\<close> sequences two of them, and
  \<open>andE\<close> is Python's \<open>and\<close>, which does not evaluate its right operand when the left
  one is false.
\<close>

datatype error = IndexError | KeyError | EOFError | ReError

definition bindE :: "error + 'a \<Rightarrow> ('a \<Rightarrow> error + 'b) \<Rightarrow> error + 'b" where
  "bindE m f = (case m of Inl e \<Rightarrow> Inl e | Inr x \<Rightarrow> f x)"

definition andE :: "error + bool \<Rightarrow> error + bool \<Rightarrow> error + bool" where
  "andE a b = bindE a (\<lambda>x. if x then b else Inr False)"

text \<open>
  \<open>tokens[k]\<close> and the tests on its two parts. The cursor starts at 0 and only grows,
  and the parser subtracts from it only under a guard (\<open>i > 1\<close>, \<open>i > 0\<close>, \<open>i >= 2\<close>,
  \<open>i >= 3\<close>) that keeps the difference from being negative, so an index is a natural
  number and is out of range when it is not below the length.
\<close>

definition tok :: "token list \<Rightarrow> nat \<Rightarrow> error + token" where
  "tok tokens k = (if k < length tokens then Inr (tokens ! k) else Inl IndexError)"

definition tipo_en :: "token list \<Rightarrow> nat \<Rightarrow> string \<Rightarrow> error + bool" where
  "tipo_en tokens k s = bindE (tok tokens k) (\<lambda>t. Inr (fst t = s))"

definition valor_en :: "token list \<Rightarrow> nat \<Rightarrow> string \<Rightarrow> error + bool" where
  "valor_en tokens k s = bindE (tok tokens k) (\<lambda>t. Inr (snd t = s))"

section \<open>The lexer\<close>

definition acciones :: "string list" where
  "acciones =
    [''mu'' @ [CHR 0xE9] @ ''strame'', ''muestrame'', ''mostrar'', ''muestra'', ''dame'',
     ''d'' @ [CHR 0xE1] @ ''melos'', ''d'' @ [CHR 0xE1] @ ''melas'',
     ''ens'' @ [CHR 0xE9, CHR 0xF1] @ ''ame'', ''ensename'', ''quiero'', ''consultar'',
     ''consulta'', ''ver'', ''visualizar'', ''verifica'', ''explora'', ''lista'', ''listar'',
     ''recupera'', ''recuperar'', ''busca'', ''buscar'', ''obt'' @ [CHR 0xE9] @ ''n'',
     ''obtener'', ''extrae'', ''extraer'', ''filtra'', ''filtrar'', ''accede'', ''acceder'',
     ''selecciona'', ''seleccionar'', ''deseo'', ''necesito'']"

definition cuantificadores :: "string list" where
  "cuantificadores =
    [''todos'', ''todas'', ''los'', ''las'', ''algunos'', ''algunas'', ''ninguno'', ''ninguna'',
     ''cada'', ''varios'', ''cualquier'', ''cualquiera'', ''muchos'', ''muchas'', ''pocos'',
     ''pocas'', ''uno'', ''una'', ''el'', ''la'', ''este'', ''esta'', ''estos'', ''estas'']"

definition conectores :: "string list" where
  "conectores =
    [''que'', ''donde'', ''cuyo'', ''cuyos'', ''cual'', ''cuales'', ''si'', ''cuando'',
     ''mientras'', ''aunque'', ''y'', ''o'']"

definition operadores :: "string list" where
  "operadores = [''='', ''>'', ''<'', ''>='', ''<='', ''!='', ''<>'']"

definition clasificar :: "string \<Rightarrow> token" where
  "clasificar palabra =
     (if palabra \<in> set acciones then (''ACCION'', palabra)
      else if palabra \<in> set cuantificadores then (''CUANTIFICADOR'', palabra)
      else if palabra \<in> set conectores then (''CONECTOR'', palabra)
      else if palabra \<in> set operadores then (''OPERADOR'', palabra)
      else if palabra \<in> set [''tabla'', ''tablas'', ''base'', ''bases'', ''entidad'', ''entidades'']
        then (''INDICADOR_ENTIDAD'', palabra)
      else if palabra \<in> set [''columna'', ''columnas'', ''campo'', ''campos'', ''atributo'', ''atributos'']
        then (''INDICADOR_ATRIBUTO'', palabra)
      else (''PALABRA'', palabra))"

definition analisis_lexico :: "string \<Rightarrow> token list" where
  "analisis_lexico texto =
     map clasificar
       (filter (\<lambda>p. p \<noteq> []) (map (strip punctuation) (split (lower texto))))"

section \<open>The parser\<close>

text \<open>
  \<open>unir_fecha(tokens, inicio)\<close> joins the literals from \<open>inicio\<close> on with single spaces,
  one more token at a time, until the phrase is a date; it returns the phrase and the
  number of tokens joined, or \<open>(None, 0)\<close>.
\<close>

fun unir_fecha_bucle :: "token list \<Rightarrow> string list \<Rightarrow> nat \<Rightarrow> string option \<times> nat" where
  "unir_fecha_bucle [] partes n = (None, 0)"
| "unir_fecha_bucle (t # ts) partes n =
     (let partes' = partes @ [snd t]; posible_fecha = join '' '' partes'
      in if es_fecha posible_fecha then (Some posible_fecha, n + 1)
         else unir_fecha_bucle ts partes' (n + 1))"

definition unir_fecha :: "token list \<Rightarrow> nat \<Rightarrow> string option \<times> nat" where
  "unir_fecha tokens inicio = unir_fecha_bucle (drop inicio tokens) [] 0"

text \<open>\<open>estructura["condiciones"].append({...})\<close>.\<close>

definition agregar :: "estructura \<Rightarrow> string \<Rightarrow> string \<Rightarrow> string \<Rightarrow> estructura" where
  "agregar est a ope v =
     est\<lparr>condiciones := condiciones est @ [\<lparr>atributo = a, operador = ope, valor = v\<rparr>]\<rparr>"

text \<open>
  The second rule of the loop body: on a token \<open>de\<close> with \<open>i > 1\<close> whose predecessor
  is \<open>en\<close>, \<open>unir_fecha(tokens, i - 1)\<close> is called; the rule applies when the phrase it
  returns is true (neither \<open>None\<close> nor empty).
\<close>

definition regla_unir :: "token list \<Rightarrow> nat \<Rightarrow> string \<Rightarrow> error + (string \<times> nat) option" where
  "regla_unir tokens i val =
     bindE (andE (Inr (val = ''de'')) (andE (Inr (i > 1)) (valor_en tokens (i - 1) ''en'')))
       (\<lambda>b. if b
             then (case unir_fecha tokens (i - 1) of
                     (Some fecha, saltos) \<Rightarrow> Inr (if fecha \<noteq> [] then Some (fecha, saltos) else None)
                   | (None, saltos) \<Rightarrow> Inr None)
             else Inr None)"

text \<open>
  The scan after \<open>donde\<close> or \<open>que\<close>. \<open>ventana\<close> is the body of its loop at position
  \<open>j\<close>: the condition to append when the three tokens from \<open>j\<close> are of kind
  \<open>PALABRA\<close>, the two operator words normalize to an operator symbol and a fourth token
  exists. \<open>escanear\<close> is the loop \<open>while j < len(tokens) - 2\<close>: four tokens forward after
  a condition, one otherwise; it returns the position it stops at.
\<close>

definition ventana :: "token list \<Rightarrow> nat \<Rightarrow> error + condicion option" where
  "ventana tokens j =
     bindE (andE (tipo_en tokens j ''PALABRA'')
             (andE (tipo_en tokens (j + 1) ''PALABRA'') (tipo_en tokens (j + 2) ''PALABRA'')))
       (\<lambda>b. if b
             then bindE (tok tokens j) (\<lambda>t0. bindE (tok tokens (j + 1)) (\<lambda>t1.
                  bindE (tok tokens (j + 2)) (\<lambda>t2.
                    let operador_normalizado =
                          reemplazar_operadores_compuestos (snd t1 @ '' '' @ snd t2)
                    in if operador_normalizado \<in> set operadores \<and> j + 3 < length tokens
                       then bindE (tok tokens (j + 3)) (\<lambda>t3.
                              Inr (Some \<lparr>atributo = snd t0, operador = operador_normalizado,
                                         valor = snd t3\<rparr>))
                       else Inr None)))
             else Inr None)"

function escanear :: "token list \<Rightarrow> nat \<Rightarrow> estructura \<Rightarrow> error + (nat \<times> estructura)" where
  "escanear tokens j est =
     (if j + 2 < length tokens
      then (case ventana tokens j of
              Inl e \<Rightarrow> Inl e
            | Inr (Some c) \<Rightarrow> escanear tokens (j + 4) (est\<lparr>condiciones := condiciones est @ [c]\<rparr>)
            | Inr None \<Rightarrow> escanear tokens (j + 1) est)
      else Inr (j, est))"
  by pat_completeness auto
termination
  by (relation "measure (\<lambda>(tokens, j, est). length tokens - j)") auto

text \<open>
  The branches of the \<open>if\<close>/\<open>elif\<close> chain that read further tokens. Each returns the
  cursor and the structured query as they are before the final \<open>i += 1\<close> of the loop body.
\<close>

definition rama_indicador :: "token list \<Rightarrow> nat \<Rightarrow> estructura \<Rightarrow> error + (nat \<times> estructura)" where
  "rama_indicador tokens i est =
     bindE (andE (Inr (i + 1 < length tokens)) (tipo_en tokens (i + 1) ''PALABRA''))
       (\<lambda>b. if b then bindE (tok tokens (i + 1)) (\<lambda>t. Inr (i + 1, est\<lparr>entidad := Some (snd t)\<rparr>))
             else Inr (i, est))"

definition rama_palabra :: "string \<Rightarrow> estructura \<Rightarrow> estructura" where
  "rama_palabra val est =
     (if val \<in> set [''clientes'', ''productos'', ''ventas''] then est\<lparr>entidad := Some val\<rparr>
      else if val \<in> set [''nombre'', ''edad'', ''id'', ''dept'', ''precio'', ''fecha'']
        then est\<lparr>atributos_mostrar :=
                   Some ((case atributos_mostrar est of None \<Rightarrow> [] | Some l \<Rightarrow> l) @ [val])\<rparr>
      else est)"

definition rama_con :: "token list \<Rightarrow> nat \<Rightarrow> estructura \<Rightarrow> error + (nat \<times> estructura)" where
  "rama_con tokens i est =
     bindE (tok tokens (i + 1)) (\<lambda>t1. bindE (tok tokens (i + 2)) (\<lambda>t2.
     bindE (tok tokens (i + 3)) (\<lambda>t3. bindE (tok tokens (i + 4)) (\<lambda>t4.
       let ope = reemplazar_operadores_compuestos (snd t2 @ '' '' @ snd t3)
       in if ope \<in> set operadores then Inr (i + 4, agregar est (snd t1) ope (snd t4))
          else Inr (i, est)))))"

definition rama_de :: "token list \<Rightarrow> nat \<Rightarrow> estructura \<Rightarrow> error + (nat \<times> estructura)" where
  "rama_de tokens i est =
     bindE (andE (Inr (i + 1 < length tokens))
             (bindE (tok tokens (i + 1)) (\<lambda>t. Inr (es_fecha (snd t)))))
       (\<lambda>sigue_fecha. if sigue_fecha then Inr (i, est)
          else bindE (if entidad est = None
                      then bindE (tok tokens (i - 1)) (\<lambda>t. Inr (est\<lparr>entidad := Some (snd t)\<rparr>))
                      else Inr est)
                 (\<lambda>est1. bindE (andE (Inr (i + 1 < length tokens)) (tipo_en tokens (i + 1) ''PALABRA''))
                    (\<lambda>b. if b
                          then bindE (tok tokens (i + 1))
                                 (\<lambda>t. Inr (i + 1, agregar est1 ''dept'' ''='' (rstrip ''.'' (snd t))))
                          else Inr (i, est1))))"

definition rama_llamado :: "token list \<Rightarrow> nat \<Rightarrow> estructura \<Rightarrow> error + (nat \<times> estructura)" where
  "rama_llamado tokens i est =
     bindE (if entidad est = None
            then bindE (tok tokens (i - 1)) (\<lambda>t. Inr (est\<lparr>entidad := Some (snd t)\<rparr>))
            else Inr est)
       (\<lambda>est1. if i + 1 < length tokens
                then bindE (tok tokens (i + 1)) (\<lambda>t. Inr (i + 1, agregar est1 ''nombre'' ''='' (snd t)))
                else Inr (i, est1))"

definition rama_llama :: "token list \<Rightarrow> nat \<Rightarrow> estructura \<Rightarrow> error + (nat \<times> estructura)" where
  "rama_llama tokens i est =
     bindE (if entidad est = None \<and> i \<ge> 3
            then bindE (tok tokens (i - 3)) (\<lambda>t. Inr (est\<lparr>entidad := Some (snd t)\<rparr>))
            else Inr est)
       (\<lambda>est1. if i + 1 < length tokens
                then bindE (tok tokens (i + 1)) (\<lambda>t. Inr (i + 1, agregar est1 ''nombre'' ''='' (snd t)))
                else Inr (i, est1))"

text \<open>The \<open>i += 1\<close> that ends the loop body.\<close>

definition avanzar :: "nat \<times> estructura \<Rightarrow> error + (nat \<times> estructura)" where
  "avanzar r = Inr (fst r + 1, snd r)"

text \<open>
  The \<open>if\<close>/\<open>elif\<close> chain, in the order of the source. The branch of the connectors
  ends in \<open>i = j; continue\<close>, so it does not pass through \<open>avanzar\<close>.
\<close>

definition cadena :: "token list \<Rightarrow> nat \<Rightarrow> string \<Rightarrow> string \<Rightarrow> estructura \<Rightarrow> error + (nat \<times> estructura)" where
  "cadena tokens i tip val est =
     (if tip = ''ACCION'' \<and> accion est = None then avanzar (i, est\<lparr>accion := Some val\<rparr>)
      else if tip = ''INDICADOR_ENTIDAD'' then bindE (rama_indicador tokens i est) avanzar
      else if tip = ''PALABRA'' \<and> entidad est = None then avanzar (i, rama_palabra val est)
      else if tip = ''CONECTOR'' \<and> val \<in> set [''donde'', ''que''] then escanear tokens (i + 1) est
      else if val = ''con'' \<and> i + 4 < length tokens then bindE (rama_con tokens i est) avanzar
      else bindE (andE (Inr (val = ''de''))
                   (andE (Inr (i > 0)) (tipo_en tokens (i - 1) ''PALABRA'')))
        (\<lambda>b1. if b1 then bindE (rama_de tokens i est) avanzar
         else bindE (andE (Inr (val \<in> set [''llamado'', ''llamados'', ''llamada'']))
                      (andE (Inr (i > 0)) (tipo_en tokens (i - 1) ''PALABRA'')))
        (\<lambda>b2. if b2 then bindE (rama_llamado tokens i est) avanzar
         else bindE (andE (Inr (val = ''llama'' \<or> val = ''llaman''))
                      (andE (Inr (i \<ge> 2)) (valor_en tokens (i - 1) ''se'')))
        (\<lambda>b3. if b3 then bindE (rama_llama tokens i est) avanzar
         else avanzar (i, est)))))"

text \<open>
  One iteration of \<open>while i < len(tokens)\<close>: the single-token date, the joined date, then
  the chain. It returns the cursor and the structured query of the next iteration.
\<close>

definition paso :: "token list \<Rightarrow> nat \<Rightarrow> estructura \<Rightarrow> error + (nat \<times> estructura)" where
  "paso tokens i est =
     bindE (tok tokens i) (\<lambda>t.
       let tip = fst t; val = snd t
       in if es_fecha val then Inr (i + 1, agregar est ''fecha'' ''='' val)
          else bindE (regla_unir tokens i val)
                 (\<lambda>r. case r of
                         Some (fecha, saltos) \<Rightarrow> Inr (i + saltos, agregar est ''fecha'' ''='' fecha)
                       | None \<Rightarrow> cadena tokens i tip val est))"




declare escanear.simps [simp del]

subsection \<open>The cursor advances\<close>

lemma bindE_Inr: "bindE m f = Inr y \<longleftrightarrow> (\<exists>x. m = Inr x \<and> f x = Inr y)"
  by (cases m) (simp_all add: bindE_def)

lemma tok_Inr: "k < length tokens \<Longrightarrow> tok tokens k = Inr (tokens ! k)"
  by (simp add: tok_def)

lemma escanear_avanza: "escanear tokens j est = Inr (j', est') \<Longrightarrow> j \<le> j'"
proof (induction tokens j est rule: escanear.induct)
  case (1 tokens j est)
  show ?case
  proof (cases "j + 2 < length tokens")
    case False
    then show ?thesis using "1.prems" by (simp add: escanear.simps [of tokens j est])
  next
    case True
    note lt = this
    note unf = escanear.simps [of tokens j est]
    show ?thesis
    proof (cases "ventana tokens j")
      case (Inl e)
      then show ?thesis using "1.prems" lt by (simp add: unf)
    next
      case (Inr r)
      show ?thesis
      proof (cases r)
        case None
        then have "escanear tokens (j + 1) est = Inr (j', est')"
          using "1.prems" lt Inr by (simp add: unf)
        then have "j + 1 \<le> j'" using "1.IH" lt Inr None by simp
        then show ?thesis by simp
      next
        case (Some c)
        then have "escanear tokens (j + 4) (est\<lparr>condiciones := condiciones est @ [c]\<rparr>) = Inr (j', est')"
          using "1.prems" lt Inr by (simp add: unf)
        then have "j + 4 \<le> j'" using "1.IH" lt Inr Some by simp
        then show ?thesis by simp
      qed
    qed
  qed
qed

lemma unir_fecha_bucle_saltos:
  "unir_fecha_bucle ts partes n = (Some f, s) \<Longrightarrow> n < s"
proof (induction ts arbitrary: partes n)
  case Nil
  then show ?case by simp
next
  case (Cons t ts)
  show ?case
  proof (cases "es_fecha (join '' '' (partes @ [snd t]))")
    case True
    then show ?thesis using Cons.prems by (simp add: Let_def)
  next
    case False
    then have "unir_fecha_bucle ts (partes @ [snd t]) (n + 1) = (Some f, s)"
      using Cons.prems by (simp add: Let_def)
    then have "n + 1 < s" by (rule Cons.IH)
    then show ?thesis by simp
  qed
qed

lemma regla_unir_saltos:
  assumes "regla_unir tokens i val = Inr (Some (f, s))"
  shows "0 < s"
proof -
  obtain fo n where u: "unir_fecha tokens (i - 1) = (fo, n)" by (cases "unir_fecha tokens (i - 1)")
  from assms u have "fo = Some f \<and> n = s"
    by (cases fo) (auto simp: regla_unir_def bindE_Inr split: if_splits)
  then have "unir_fecha_bucle (drop (i - 1) tokens) [] 0 = (Some f, s)"
    using u by (simp add: unir_fecha_def)
  then show ?thesis by (rule unir_fecha_bucle_saltos)
qed

lemma rama_indicador_avanza: "rama_indicador tokens i est = Inr (i', est') \<Longrightarrow> i \<le> i'"
  by (auto simp: rama_indicador_def bindE_Inr split: if_splits)

lemma rama_con_avanza: "rama_con tokens i est = Inr (i', est') \<Longrightarrow> i \<le> i'"
  by (auto simp: rama_con_def bindE_Inr Let_def split: if_splits)

lemma rama_de_avanza: "rama_de tokens i est = Inr (i', est') \<Longrightarrow> i \<le> i'"
  by (auto simp: rama_de_def bindE_Inr split: if_splits)

lemma rama_llamado_avanza: "rama_llamado tokens i est = Inr (i', est') \<Longrightarrow> i \<le> i'"
  by (auto simp: rama_llamado_def bindE_Inr split: if_splits)

lemma rama_llama_avanza: "rama_llama tokens i est = Inr (i', est') \<Longrightarrow> i \<le> i'"
  by (auto simp: rama_llama_def bindE_Inr split: if_splits)

lemma cadena_avanza: "cadena tokens i tip val est = Inr (i', est') \<Longrightarrow> i < i'"
  unfolding cadena_def avanzar_def
  by (auto simp: bindE_Inr split: if_splits
      dest!: rama_indicador_avanza rama_con_avanza rama_de_avanza rama_llamado_avanza
        rama_llama_avanza escanear_avanza)

lemma paso_avanza: "paso tokens i est = Inr (i', est') \<Longrightarrow> i < i'"
  unfolding paso_def Let_def
  by (auto simp: bindE_Inr split: if_splits option.splits dest!: cadena_avanza regla_unir_saltos)

text \<open>
  The main loop. Its termination rests on \<open>paso_avanza\<close>: the distance from the cursor
  to the end of the tokens decreases with every iteration.
\<close>

function bucle :: "token list \<Rightarrow> nat \<Rightarrow> estructura \<Rightarrow> error + estructura" where
  "bucle tokens i est =
     (if i < length tokens
      then (case paso tokens i est of
              Inl e \<Rightarrow> Inl e
            | Inr (i', est') \<Rightarrow> bucle tokens i' est')
      else Inr est)"
  by pat_completeness auto
termination
  by (relation "measure (\<lambda>(tokens, i, est). length tokens - i)") (auto dest: paso_avanza)

declare bucle.simps [simp del]

definition estructura_inicial :: estructura where
  "estructura_inicial =
     \<lparr>accion = None, entidad = None, condiciones = [], atributos_mostrar = None\<rparr>"

definition analisis_sintactico :: "token list \<Rightarrow> error + estructura" where
  "analisis_sintactico tokens = bucle tokens 0 estructura_inicial"



subsection \<open>No index out of range\<close>

lemma tipo_en_Inr: "k < length tokens \<Longrightarrow> tipo_en tokens k s = Inr (fst (tokens ! k) = s)"
  by (simp add: tipo_en_def tok_def bindE_def)

lemma valor_en_Inr: "k < length tokens \<Longrightarrow> valor_en tokens k s = Inr (snd (tokens ! k) = s)"
  by (simp add: valor_en_def tok_def bindE_def)

lemma bindE_Inr_simp: "bindE (Inr x) f = f x"
  by (simp add: bindE_def)

lemma andE_Inr: "andE (Inr a) b = (if a then b else Inr False)"
  by (simp add: andE_def bindE_def)

lemma ventana_ok: "j + 2 < length tokens \<Longrightarrow> \<exists>r. ventana tokens j = Inr r"
  by (simp add: ventana_def tipo_en_Inr tok_Inr bindE_Inr_simp andE_Inr Let_def)

lemma escanear_ok: "\<exists>r. escanear tokens j est = Inr r"
proof (induction tokens j est rule: escanear.induct)
  case (1 tokens j est)
  show ?case
  proof (cases "j + 2 < length tokens")
    case False
    then show ?thesis by (simp add: escanear.simps [of tokens j est])
  next
    case True
    then obtain r where r: "ventana tokens j = Inr r" using ventana_ok by blast
    show ?thesis
    proof (cases r)
      case None
      then show ?thesis using "1.IH" True r by (simp add: escanear.simps [of tokens j est])
    next
      case (Some c)
      then show ?thesis using "1.IH" True r by (simp add: escanear.simps [of tokens j est])
    qed
  qed
qed

lemma regla_unir_ok: "i < length tokens \<Longrightarrow> \<exists>r. regla_unir tokens i val = Inr r"
  by (cases "unir_fecha tokens (i - 1)")
     (auto simp: regla_unir_def valor_en_Inr bindE_Inr_simp andE_Inr split: option.splits)

lemma rama_indicador_ok: "\<exists>r. rama_indicador tokens i est = Inr r"
  by (simp add: rama_indicador_def tipo_en_Inr tok_Inr bindE_Inr_simp andE_Inr)

lemma rama_con_ok: "i + 4 < length tokens \<Longrightarrow> \<exists>r. rama_con tokens i est = Inr r"
  by (simp add: rama_con_def tok_Inr bindE_Inr_simp Let_def)

lemma rama_de_ok: "0 < i \<Longrightarrow> i < length tokens \<Longrightarrow> \<exists>r. rama_de tokens i est = Inr r"
  by (simp add: rama_de_def tipo_en_Inr tok_Inr bindE_Inr_simp andE_Inr)

lemma rama_llamado_ok: "0 < i \<Longrightarrow> i < length tokens \<Longrightarrow> \<exists>r. rama_llamado tokens i est = Inr r"
  by (simp add: rama_llamado_def tok_Inr bindE_Inr_simp)

lemma rama_llama_ok: "i < length tokens \<Longrightarrow> \<exists>r. rama_llama tokens i est = Inr r"
  by (simp add: rama_llama_def tok_Inr bindE_Inr_simp)

lemma avanzar_ok: "(\<exists>r. m = Inr r) \<Longrightarrow> \<exists>r. bindE m avanzar = Inr r"
  by (auto simp: bindE_def avanzar_def)

lemma guarda_tipo:
  "i < length tokens \<Longrightarrow>
   andE (Inr p) (andE (Inr q) (tipo_en tokens (i - 1) s)) =
     Inr (p \<and> q \<and> fst (tokens ! (i - 1)) = s)"
  by (simp add: andE_Inr tipo_en_Inr)

lemma guarda_valor:
  "i < length tokens \<Longrightarrow>
   andE (Inr p) (andE (Inr q) (valor_en tokens (i - 1) s)) =
     Inr (p \<and> q \<and> snd (tokens ! (i - 1)) = s)"
  by (simp add: andE_Inr valor_en_Inr)

lemma bindE_if_ok:
  "c = Inr b \<Longrightarrow> (b \<Longrightarrow> \<exists>r. x = Inr r) \<Longrightarrow> (\<not> b \<Longrightarrow> \<exists>r. y = Inr r) \<Longrightarrow>
   \<exists>r. bindE c (\<lambda>b. if b then x else y) = Inr r"
  by (simp add: bindE_def)

lemma cadena_ok:
  assumes "i < length tokens"
  shows "\<exists>r. cadena tokens i tip val est = Inr r"
proof -
  have fin: "\<exists>r. avanzar (i, est) = Inr r" by (simp add: avanzar_def)
  have llama: "\<exists>r. bindE (andE (Inr (val = ''llama'' \<or> val = ''llaman''))
                      (andE (Inr (i \<ge> 2)) (valor_en tokens (i - 1) ''se'')))
        (\<lambda>b3. if b3 then bindE (rama_llama tokens i est) avanzar
         else avanzar (i, est)) = Inr r"
    by (rule bindE_if_ok [OF guarda_valor [OF assms]])
       (rule avanzar_ok, rule rama_llama_ok [OF assms], rule fin)
  have llamado: "\<exists>r. bindE (andE (Inr (val \<in> set [''llamado'', ''llamados'', ''llamada'']))
                      (andE (Inr (i > 0)) (tipo_en tokens (i - 1) ''PALABRA'')))
        (\<lambda>b2. if b2 then bindE (rama_llamado tokens i est) avanzar
         else bindE (andE (Inr (val = ''llama'' \<or> val = ''llaman''))
                      (andE (Inr (i \<ge> 2)) (valor_en tokens (i - 1) ''se'')))
        (\<lambda>b3. if b3 then bindE (rama_llama tokens i est) avanzar
         else avanzar (i, est))) = Inr r"
    by (rule bindE_if_ok [OF guarda_tipo [OF assms]])
       (rule avanzar_ok, rule rama_llamado_ok, simp, rule assms, rule llama)
  have de: "\<exists>r. bindE (andE (Inr (val = ''de''))
                   (andE (Inr (i > 0)) (tipo_en tokens (i - 1) ''PALABRA'')))
        (\<lambda>b1. if b1 then bindE (rama_de tokens i est) avanzar
         else bindE (andE (Inr (val \<in> set [''llamado'', ''llamados'', ''llamada'']))
                      (andE (Inr (i > 0)) (tipo_en tokens (i - 1) ''PALABRA'')))
        (\<lambda>b2. if b2 then bindE (rama_llamado tokens i est) avanzar
         else bindE (andE (Inr (val = ''llama'' \<or> val = ''llaman''))
                      (andE (Inr (i \<ge> 2)) (valor_en tokens (i - 1) ''se'')))
        (\<lambda>b3. if b3 then bindE (rama_llama tokens i est) avanzar
         else avanzar (i, est)))) = Inr r"
    by (rule bindE_if_ok [OF guarda_tipo [OF assms]])
       (rule avanzar_ok, rule rama_de_ok, simp, rule assms, rule llamado)
  have a1: "\<exists>r. avanzar (i, est\<lparr>accion := Some val\<rparr>) = Inr r" by (simp add: avanzar_def)
  have a2: "\<exists>r. avanzar (i, rama_palabra val est) = Inr r" by (simp add: avanzar_def)
  have a3: "\<exists>r. bindE (rama_indicador tokens i est) avanzar = Inr r"
    by (rule avanzar_ok, rule rama_indicador_ok)
  have a4: "i + 4 < length tokens \<Longrightarrow> \<exists>r. bindE (rama_con tokens i est) avanzar = Inr r"
    by (rule avanzar_ok, rule rama_con_ok)
  show ?thesis
    unfolding cadena_def
    using de a1 a2 a3 a4 escanear_ok [of tokens "i + 1" est]
    by (simp only: split: if_split) blast
qed

lemma paso_ok:
  assumes "i < length tokens"
  shows "\<exists>r. paso tokens i est = Inr r"
proof -
  obtain r where r: "regla_unir tokens i (snd (tokens ! i)) = Inr r"
    using regla_unir_ok [OF assms] by blast
  show ?thesis
    using assms r cadena_ok [OF assms]
    by (cases r) (auto simp: paso_def tok_Inr bindE_Inr_simp Let_def)
qed

lemma bucle_ok: "\<exists>e. bucle tokens i est = Inr e"
proof (induction tokens i est rule: bucle.induct)
  case (1 tokens i est)
  show ?case
  proof (cases "i < length tokens")
    case False
    then show ?thesis by (simp add: bucle.simps [of tokens i est])
  next
    case True
    then obtain i' est' where r: "paso tokens i est = Inr (i', est')"
      using paso_ok by fastforce
    then show ?thesis using "1.IH" True by (simp add: bucle.simps [of tokens i est])
  qed
qed

text \<open>
  Claim C7. For every token sequence: an iteration of the main loop at a cursor inside
  the sequence raises nothing and ends with a strictly greater cursor; the scan of the
  connector branch raises nothing and stops at a position that is not before its start
  (the branch starts it at \<open>i + 1\<close>, so the cursor it sets is greater than \<open>i\<close>); and
  the parser returns a structured query, that is, it ends and reads no token outside
  the sequence. \<open>bucle\<close> and \<open>escanear\<close> are total functions by their termination
  proofs, whose measure is the distance from the cursor to the end.
\<close>

theorem analisis_sintactico_avanza:
  "(\<forall>i est. i < length tokens \<longrightarrow>
      (\<exists>i' est'. paso tokens i est = Inr (i', est') \<and> i < i')) \<and>
   (\<forall>j est. \<exists>j' est'. escanear tokens j est = Inr (j', est') \<and> j \<le> j') \<and>
   (\<exists>est. analisis_sintactico tokens = Inr est)"
proof (intro conjI allI impI)
  fix i est
  assume "i < length tokens"
  then obtain r where r: "paso tokens i est = Inr r" using paso_ok by blast
  obtain i' est' where "r = (i', est')" by (cases r)
  then show "\<exists>i' est'. paso tokens i est = Inr (i', est') \<and> i < i'"
    using r paso_avanza by blast
next
  fix j est
  obtain r where r: "escanear tokens j est = Inr r" using escanear_ok by blast
  obtain j' est' where "r = (j', est')" by (cases r)
  then show "\<exists>j' est'. escanear tokens j est = Inr (j', est') \<and> j \<le> j'"
    using r escanear_avanza by blast
next
  show "\<exists>est. analisis_sintactico tokens = Inr est"
    unfolding analisis_sintactico_def by (rule bucle_ok)
qed

theorem analisis_sintactico_avanza_witness:
  "(1::nat) < length [(''PALABRA'', ''clientes''), (''CONECTOR'', ''donde''), (''PALABRA'', ''edad'')] \<and>
   (\<exists>i' est'. paso [(''PALABRA'', ''clientes''), (''CONECTOR'', ''donde''), (''PALABRA'', ''edad'')] 1
        estructura_inicial = Inr (i', est') \<and> 1 < i')"
  using analisis_sintactico_avanza
    [of "[(''PALABRA'', ''clientes''), (''CONECTOR'', ''donde''), (''PALABRA'', ''edad'')]"]
  by simp

subsection \<open>The joined-date rule never applies\<close>

text \<open>
  \<open>unir_fecha\<close> is called at the token \<open>en\<close>, so every phrase it builds starts with
  the letter e, and every date shape starts with a digit.
\<close>

lemma es_fecha_no_digito: "\<not> isdecimal_char c \<Longrightarrow> \<not> isupper_char c \<Longrightarrow> \<not> es_fecha (c # s)"
  by (simp add: eval_fecha lower_def lower_char_def)

lemma join_cabeza: "\<exists>s. join sep ((c # w) # ws) = c # s"
  by (cases ws) simp_all

lemma es_fecha_en: "\<not> es_fecha (join '' '' (''en'' # ps))"
proof -
  obtain s where "join '' '' (''en'' # ps) = CHR ''e'' # s" using join_cabeza by blast
  moreover have "\<not> es_fecha (CHR ''e'' # s)"
    by (rule es_fecha_no_digito) (simp_all add: eval_cadenas)
  ultimately show ?thesis by simp
qed

lemma unir_fecha_bucle_en: "unir_fecha_bucle ts (''en'' # ps) n = (None, 0)"
proof (induction ts arbitrary: ps n)
  case Nil
  then show ?case by simp
next
  case (Cons t ts)
  have "\<not> es_fecha (join '' '' (''en'' # (ps @ [snd t])))" by (rule es_fecha_en)
  then show ?case using Cons.IH [of "ps @ [snd t]" "n + 1"] by (simp add: Let_def)
qed

lemma unir_fecha_en:
  assumes "k < length tokens" "snd (tokens ! k) = ''en''"
  shows "unir_fecha tokens k = (None, 0)"
proof -
  have "drop k tokens = tokens ! k # drop (Suc k) tokens"
    using assms(1) by (simp add: Cons_nth_drop_Suc)
  moreover have "\<not> es_fecha (join '' '' (''en'' # []))" by (rule es_fecha_en)
  ultimately show ?thesis
    using assms(2) unir_fecha_bucle_en [of "drop (Suc k) tokens" "[]" 1]
    by (simp add: unir_fecha_def Let_def)
qed

lemma regla_unir_nunca: "regla_unir tokens i val \<noteq> Inr (Some r)"
proof (cases "val = ''de'' \<and> i > 1")
  case False
  then show ?thesis by (auto simp: regla_unir_def andE_Inr bindE_Inr_simp)
next
  case True
  show ?thesis
  proof (cases "i - 1 < length tokens")
    case False
    then show ?thesis using True
      by (simp add: regla_unir_def andE_Inr bindE_def valor_en_def tok_def)
  next
    case lt: True
    show ?thesis
    proof (cases "snd (tokens ! (i - 1)) = ''en''")
      case False
      then show ?thesis using True lt
        by (simp add: regla_unir_def andE_Inr bindE_Inr_simp valor_en_Inr)
    next
      case en: True
      then show ?thesis using True lt unir_fecha_en [OF lt en]
        by (simp add: regla_unir_def andE_Inr bindE_Inr_simp valor_en_Inr)
    qed
  qed
qed


section \<open>The SQL generator\<close>

text \<open>
  The sentinel returned when the entity is false in Python's sense, which is \<open>None\<close>
  or the empty string.
\<close>

definition centinela_sql :: string where
  "centinela_sql = ''-- No se puede generar consulta SQL: entidad desconocida.''"

text \<open>\<open>valor.replace(".", "", 1).isdigit()\<close>: the test that leaves a value unquoted.\<close>

definition es_numero :: "string \<Rightarrow> bool" where
  "es_numero v = isdigit (remove1 CHR ''.'' v)"

definition comilla :: string where
  "comilla = [CHR 0x27]"

text \<open>
  The body of the loop over the conditions. \<open>convertir_fecha\<close> is the conversion
  \<open>datetime.strptime(valor, "%d de %B de %Y").strftime("%Y-%m-%d")\<close> of the library,
  \<open>None\<close> when it raises (the month names it accepts depend on the locale of the
  process); the program keeps the value as it is then.
\<close>

definition condicion_sql :: "(string \<Rightarrow> string option) \<Rightarrow> condicion \<Rightarrow> string" where
  "condicion_sql convertir_fecha cond =
     (if atributo cond = ''fecha'' \<and> re_match fecha_larga (valor cond)
      then atributo cond @ '' '' @ operador cond @ '' DATE('' @ comilla @
           (case convertir_fecha (valor cond) of Some v \<Rightarrow> v | None \<Rightarrow> valor cond) @
           comilla @ '')''
      else if es_numero (valor cond)
      then atributo cond @ '' '' @ operador cond @ '' '' @ valor cond
      else atributo cond @ '' '' @ operador cond @ '' '' @ comilla @ valor cond @ comilla)"

definition generar_sql :: "(string \<Rightarrow> string option) \<Rightarrow> estructura \<Rightarrow> string" where
  "generar_sql convertir_fecha est =
     (case entidad est of
        None \<Rightarrow> centinela_sql
      | Some ent \<Rightarrow>
          if ent = [] then centinela_sql
          else
            let sql = (case atributos_mostrar est of
                         None \<Rightarrow> ''SELECT * FROM '' @ ent
                       | Some campos \<Rightarrow>
                           if campos \<noteq> [] then ''SELECT '' @ join '', '' campos @ '' FROM '' @ ent
                           else ''SELECT * FROM '' @ ent);
                conds = map (condicion_sql convertir_fecha) (condiciones est)
            in if conds \<noteq> [] then sql @ '' WHERE '' @ join '' AND '' conds else sql)"

section \<open>The pipeline\<close>

text \<open>
  \<open>compilador_nl2sql_texto\<close> returns the SQL text and the structured query. The
  natural-language rendering it prints on the way does not enter either.
\<close>

definition compilador_nl2sql_texto ::
  "(string \<Rightarrow> string option) \<Rightarrow> string \<Rightarrow> error + (string \<times> estructura)" where
  "compilador_nl2sql_texto convertir_fecha texto =
     bindE (analisis_sintactico (analisis_lexico texto))
       (\<lambda>est. Inr (generar_sql convertir_fecha est, est))"

text \<open>A conversion that fails on every value, as \<open>strptime\<close> does without Spanish month names.\<close>

definition sin_conversion :: "string \<Rightarrow> string option" where
  "sin_conversion v = None"

text \<open>The example query of the specification.\<close>

definition consulta_ejemplo :: string where
  "consulta_ejemplo = ''mu'' @ [CHR 0xE9] @ ''strame los clientes donde la edad es mayor a 30''"

text \<open>
  Claim C1, on the code. For the example query the lexer yields ten tokens, the scan
  after \<open>donde\<close> finds no window of three words whose last two normalize to an operator
  (\<open>es mayor\<close>, \<open>mayor a\<close> and \<open>a 30\<close> are not in the mapping, which has \<open>menor a\<close> but
  no \<open>mayor a\<close>), and the pipeline returns the entity \<open>clientes\<close> with no condition and
  the SQL text \<open>SELECT * FROM clientes\<close>, not the condition \<open>(edad, >, 30)\<close> and
  \<open>SELECT * FROM clientes WHERE edad > 30\<close> of the claim.
\<close>

theorem compilador_consulta_ejemplo:
  "compilador_nl2sql_texto convertir_fecha consulta_ejemplo =
     Inr (''SELECT * FROM clientes'',
          \<lparr>accion = Some (''mu'' @ [CHR 0xE9] @ ''strame''), entidad = Some ''clientes'',
           condiciones = [], atributos_mostrar = None\<rparr>)"
proof -
  have "analisis_sintactico (analisis_lexico consulta_ejemplo) =
     Inr \<lparr>accion = Some (''mu'' @ [CHR 0xE9] @ ''strame''), entidad = Some ''clientes'',
          condiciones = [], atributos_mostrar = None\<rparr>"
    by code_simp
  then show ?thesis
    by (simp add: compilador_nl2sql_texto_def bindE_def generar_sql_def)
qed

text \<open>
  Claim C2, on the code. The joined-date rule never applies, for any tokens, cursor and
  literal: it requires the token before \<open>de\<close> to be \<open>en\<close> and joins from that token.
  For \<open>ventas en 21 de julio de 2025\<close> no \<open>fecha\<close> condition is emitted; each \<open>de\<close> is
  taken by the later branch that emits a \<open>dept\<close> condition.
\<close>

theorem fecha_unida_no_emitida:
  "regla_unir tokens i val \<noteq> Inr (Some r) \<and>
   compilador_nl2sql_texto convertir_fecha ''ventas en 21 de julio de 2025'' =
     Inr (''SELECT * FROM ventas WHERE dept = '' @ comilla @ ''julio'' @ comilla @ '' AND dept = 2025'',
          \<lparr>accion = None, entidad = Some ''ventas'',
           condiciones = [\<lparr>atributo = ''dept'', operador = ''='', valor = ''julio''\<rparr>,
                          \<lparr>atributo = ''dept'', operador = ''='', valor = ''2025''\<rparr>],
           atributos_mostrar = None\<rparr>)"
proof -
  have "analisis_sintactico (analisis_lexico ''ventas en 21 de julio de 2025'') =
     Inr \<lparr>accion = None, entidad = Some ''ventas'',
          condiciones = [\<lparr>atributo = ''dept'', operador = ''='', valor = ''julio''\<rparr>,
                         \<lparr>atributo = ''dept'', operador = ''='', valor = ''2025''\<rparr>],
          atributos_mostrar = None\<rparr>"
    by code_simp
  moreover have "\<not> es_numero ''julio''" by (simp add: es_numero_def eval_cadenas)
  moreover have "es_numero ''2025''" by (simp add: es_numero_def eval_cadenas)
  ultimately show ?thesis
    by (simp add: compilador_nl2sql_texto_def bindE_def generar_sql_def condicion_sql_def
        regla_unir_nunca)
qed

subsection \<open>Quoting of values\<close>

lemma todos_digitos_remove1:
  "list_all isdigit_char (remove1 CHR ''.'' v) =
     (list_all (\<lambda>x. isdigit_char x \<or> x = CHR ''.'') v \<and>
      length (filter (\<lambda>x. x = CHR ''.'') v) \<le> 1)"
proof (induction v)
  case Nil
  then show ?case by simp
next
  case (Cons x v)
  have nd: "\<not> isdigit_char CHR ''.''" by (simp add: eval_cadenas)
  have sin: "list_all isdigit_char v =
      (list_all (\<lambda>x. isdigit_char x \<or> x = CHR ''.'') v \<and> filter (\<lambda>x. x = CHR ''.'') v = [])"
    using nd by (induction v) auto
  show ?case using Cons nd sin by auto
qed

lemma remove1_vacio:
  "list_all (\<lambda>x. isdigit_char x \<or> x = CHR ''.'') v \<Longrightarrow>
   (remove1 CHR ''.'' v \<noteq> []) = (list_ex isdigit_char v \<or> length (filter (\<lambda>x. x = CHR ''.'') v) > 1)"
proof (induction v)
  case Nil
  then show ?case by simp
next
  case (Cons x v)
  have nd: "\<not> isdigit_char CHR ''.''" by (simp add: eval_cadenas)
  have "v \<noteq> [] \<longleftrightarrow> list_ex isdigit_char v \<or> filter (\<lambda>x. x = CHR ''.'') v \<noteq> []"
    using Cons.prems by (cases v) auto
  then show ?case using Cons nd by auto
qed

lemma es_numero_iff:
  "es_numero v =
     (list_all (\<lambda>x. isdigit_char x \<or> x = CHR ''.'') v \<and>
      length (filter (\<lambda>x. x = CHR ''.'') v) \<le> 1 \<and> list_ex isdigit_char v)"
  unfolding es_numero_def isdigit_def todos_digitos_remove1
  using remove1_vacio [of v] by auto

text \<open>
  Follows the spec's words, "a non-negative integer or decimal-with-one-dot": decimal
  digits 0-9, among them at most one dot, and at least one digit.
\<close>

definition entero_o_decimal :: "string \<Rightarrow> bool" where
  "entero_o_decimal v =
     (list_all (\<lambda>x. isdecimal_char x \<or> x = CHR ''.'') v \<and>
      length (filter (\<lambda>x. x = CHR ''.'') v) \<le> 1 \<and> list_ex isdecimal_char v)"

text \<open>
  The superscript digits: among the code points below 256, the characters that
  \<open>str.isdigit\<close> accepts and that are no decimal digits. On a value without them the
  test of the generator and the spec's condition agree (\<open>es_numero_sin_superindice\<close>).
\<close>

definition superindice :: "char \<Rightarrow> bool" where
  "superindice c = (c = CHR 0xB2 \<or> c = CHR 0xB3 \<or> c = CHR 0xB9)"

text \<open>The long-form \<open>fecha\<close> case of the generator: the first branch of \<open>condicion_sql\<close>.\<close>

definition fecha_larga_sql :: "condicion \<Rightarrow> bool" where
  "fecha_larga_sql cond = (atributo cond = ''fecha'' \<and> re_match fecha_larga (valor cond))"

lemma es_numero_sin_superindice:
  "\<not> list_ex superindice v \<Longrightarrow> es_numero v = entero_o_decimal v"
proof -
  assume a: "\<not> list_ex superindice v"
  have "isdigit_char x = isdecimal_char x" if "x \<in> set v" for x
    using a that by (auto simp: isdigit_char_def superindice_def list_ex_iff)
  then have "list_all (\<lambda>x. isdigit_char x \<or> x = CHR ''.'') v =
             list_all (\<lambda>x. isdecimal_char x \<or> x = CHR ''.'') v"
    and "list_ex isdigit_char v = list_ex isdecimal_char v"
    by (auto simp: list_all_iff list_ex_iff)
  then show ?thesis by (simp add: es_numero_iff entero_o_decimal_def)
qed




text \<open>
  Claim C6, on the code. The two conditions of the claim render as it says, \<open>edad > 30\<close>
  unquoted and \<open>nombre = 'Lucia'\<close> quoted. The condition whose value is the superscript
  two is not a long-form \<open>fecha\<close> case and its value is no non-negative integer and no
  decimal, yet it is rendered unquoted, because \<open>str.isdigit\<close> accepts the character.
  The pipeline produces that condition from the query \<open>clientes con edad igual a\<close>
  followed by the superscript two.
\<close>

theorem condicion_sql_superindice:
  "condicion_sql convertir_fecha \<lparr>atributo = ''edad'', operador = ''>'', valor = ''30''\<rparr> =
     ''edad > 30'' \<and>
   condicion_sql convertir_fecha \<lparr>atributo = ''nombre'', operador = ''='', valor = ''Lucia''\<rparr> =
     ''nombre = '' @ comilla @ ''Lucia'' @ comilla \<and>
   \<not> fecha_larga_sql \<lparr>atributo = ''edad'', operador = ''='', valor = [CHR 0xB2]\<rparr> \<and>
   \<not> entero_o_decimal [CHR 0xB2] \<and>
   condicion_sql convertir_fecha \<lparr>atributo = ''edad'', operador = ''='', valor = [CHR 0xB2]\<rparr> =
     ''edad = '' @ [CHR 0xB2] \<and>
   compilador_nl2sql_texto convertir_fecha (''clientes con edad igual a '' @ [CHR 0xB2]) =
     Inr (''SELECT * FROM clientes WHERE edad = '' @ [CHR 0xB2],
          \<lparr>accion = None, entidad = Some ''clientes'',
           condiciones = [\<lparr>atributo = ''edad'', operador = ''='', valor = [CHR 0xB2]\<rparr>],
           atributos_mostrar = None\<rparr>)"
proof -
  have "analisis_sintactico (analisis_lexico (''clientes con edad igual a '' @ [CHR 0xB2])) =
     Inr \<lparr>accion = None, entidad = Some ''clientes'',
          condiciones = [\<lparr>atributo = ''edad'', operador = ''='', valor = [CHR 0xB2]\<rparr>],
          atributos_mostrar = None\<rparr>"
    by code_simp
  moreover have "es_numero ''30''" by (simp add: es_numero_def eval_cadenas)
  moreover have "\<not> es_numero ''Lucia''" by (simp add: es_numero_def eval_cadenas)
  moreover have "es_numero [CHR 0xB2]" by (simp add: es_numero_def eval_cadenas)
  moreover have "\<not> entero_o_decimal [CHR 0xB2]"
    by (simp add: entero_o_decimal_def eval_cadenas)
  ultimately show ?thesis
    by (simp add: compilador_nl2sql_texto_def bindE_def generar_sql_def condicion_sql_def
        fecha_larga_sql_def)
qed

section \<open>The corrector\<close>

text \<open>
  A revision is a dictionary; \<open>indice\<close> and \<open>sub_campo\<close> are absent from the revisions of
  the kinds that do not use them.
\<close>

record revision =
  tipo :: string
  original :: string
  campo_estructura :: string
  indice :: "nat option"
  sub_campo :: "string option"

text \<open>\<open>estructura.get("atributos_mostrar", [])\<close>.\<close>

definition mostrar_de :: "estructura \<Rightarrow> string list" where
  "mostrar_de est = (case atributos_mostrar est of None \<Rightarrow> [] | Some l \<Rightarrow> l)"

text \<open>
  The three passes that fill the list \<open>revisiones\<close>: the entity when it is true and not
  in the Trie, each attribute to show that is not in the Trie, each condition attribute
  that is true and not in the Trie.
\<close>

definition revisiones_entidad :: "estructura \<Rightarrow> char Trie \<Rightarrow> revision list" where
  "revisiones_entidad est trie =
     (case entidad est of
        None \<Rightarrow> []
      | Some e \<Rightarrow>
          if e \<noteq> [] \<and> \<not> Trie_search trie e
          then [\<lparr>tipo = ''entidad'', original = e, campo_estructura = ''entidad'',
                 indice = None, sub_campo = None\<rparr>]
          else [])"

definition revisiones_mostrar :: "estructura \<Rightarrow> char Trie \<Rightarrow> revision list" where
  "revisiones_mostrar est trie =
     concat (map (\<lambda>(i, attr).
                    if \<not> Trie_search trie attr
                    then [\<lparr>tipo = ''atributo_mostrar'', original = attr,
                           campo_estructura = ''atributos_mostrar'', indice = Some i,
                           sub_campo = None\<rparr>]
                    else [])
                 (enumerate 0 (mostrar_de est)))"

definition revisiones_condiciones :: "estructura \<Rightarrow> char Trie \<Rightarrow> revision list" where
  "revisiones_condiciones est trie =
     concat (map (\<lambda>(i, cond).
                    if atributo cond \<noteq> [] \<and> \<not> Trie_search trie (atributo cond)
                    then [\<lparr>tipo = ''atributo_condicion'', original = atributo cond,
                           campo_estructura = ''condiciones'', indice = Some i,
                           sub_campo = Some ''atributo''\<rparr>]
                    else [])
                 (enumerate 0 (condiciones est)))"

definition revisiones :: "estructura \<Rightarrow> char Trie \<Rightarrow> revision list" where
  "revisiones est trie =
     revisiones_entidad est trie @ revisiones_mostrar est trie @ revisiones_condiciones est trie"

text \<open>
  The loop that asks for a selection. The answers of the user are the list \<open>entradas\<close>,
  each the integer that \<open>int(input(...))\<close> gives or \<open>None\<close> when it raises
  \<open>ValueError\<close>; the loop takes the first answer within \<open>1 .. n\<close>, and \<open>input\<close> raises
  \<open>EOFError\<close> when the answers run out.
\<close>

fun pedir_seleccion :: "nat \<Rightarrow> int option list \<Rightarrow> error + (nat \<times> int option list)" where
  "pedir_seleccion n [] = Inl EOFError"
| "pedir_seleccion n (None # entradas) = pedir_seleccion n entradas"
| "pedir_seleccion n (Some k # entradas) =
     (if k < 1 \<or> k > int n then pedir_seleccion n entradas else Inr (nat k, entradas))"

text \<open>\<open>str.replace(old, new)\<close> for an \<open>old\<close> that is not empty: every occurrence, from the left.\<close>

fun str_replace :: "string \<Rightarrow> string \<Rightarrow> string \<Rightarrow> string" where
  "str_replace old new [] = []"
| "str_replace old new (c # cs) =
     (if take (length old) (c # cs) = old
      then new @ str_replace old new (drop (length old - 1) cs)
      else c # str_replace old new cs)"

text \<open>
  The replacement argument of \<open>re.sub\<close> is a template. Without a backslash it stands
  for itself. With one, the library parses its escapes before it searches the text: it
  raises \<open>re.error\<close> (a bad escape, a reference to a group the pattern does not have)
  or \<open>IndexError\<close> (an unknown group name), or gives the text with the escapes
  expanded, where \<open>\g<0>\<close> stands for the matched phrase. \<open>expandir_plantilla frase repl\<close>
  is that result of the library for the pattern of the literal \<open>frase\<close>.
\<close>

definition plantilla ::
  "(string \<Rightarrow> string \<Rightarrow> error + string) \<Rightarrow> string \<Rightarrow> string \<Rightarrow> error + string" where
  "plantilla expandir_plantilla frase repl =
     (if CHR 0x5C \<in> set repl then expandir_plantilla frase repl else Inr repl)"

text \<open>
  The body of the loop over the revisions, on the SQL text, the structured query and the
  answers left. \<open>get_close_matches\<close> is the library's
  \<open>difflib.get_close_matches(palabra, todas, n=5, cutoff=0.6)\<close>. The structured query
  is updated before the SQL text, so an exception of \<open>re.sub\<close> leaves no result.
\<close>

definition aplicar_revision ::
  "(string \<Rightarrow> string list \<Rightarrow> string list) \<Rightarrow> (string \<Rightarrow> string \<Rightarrow> error + string) \<Rightarrow>
   (string \<Rightarrow> string option) \<Rightarrow> string list \<Rightarrow>
   revision \<Rightarrow> string \<times> estructura \<times> int option list \<Rightarrow>
   error + (string \<times> estructura \<times> int option list)" where
  "aplicar_revision get_close_matches expandir_plantilla convertir_fecha todas_palabras_validas
     revi estado =
     (case estado of (nueva_sql_query, est, entradas) \<Rightarrow>
        let palabra_a_revisar = original revi;
            opciones = palabra_a_revisar # get_close_matches palabra_a_revisar todas_palabras_validas
        in bindE (pedir_seleccion (length opciones) entradas) (\<lambda>(seleccion, entradas').
             let palabra_elegida = opciones ! (seleccion - 1)
             in if tipo revi = ''entidad''
                then let old_entity = (case entidad est of None \<Rightarrow> ''None'' | Some e \<Rightarrow> e)
                     in Inr (str_replace (''FROM '' @ old_entity) (''FROM '' @ palabra_elegida)
                               nueva_sql_query,
                             est\<lparr>entidad := Some palabra_elegida\<rparr>, entradas')
                else if tipo revi = ''atributo_mostrar''
                then (case (atributos_mostrar est, indice revi) of
                        (Some attrs, Some k) \<Rightarrow>
                          if k < length attrs
                          then bindE (plantilla expandir_plantilla (attrs ! k) palabra_elegida)
                                 (\<lambda>repl.
                                    Inr (re_sub_limites (attrs ! k) repl (Some 1) nueva_sql_query,
                                         est\<lparr>atributos_mostrar :=
                                               Some (attrs[k := palabra_elegida])\<rparr>,
                                         entradas'))
                          else Inl IndexError
                      | _ \<Rightarrow> Inl KeyError)
                else if tipo revi = ''atributo_condicion''
                then (case indice revi of
                        Some k \<Rightarrow>
                          if k < length (condiciones est)
                          then let est' = est\<lparr>condiciones :=
                                     (condiciones est)
                                       [k := (condiciones est ! k)\<lparr>atributo := palabra_elegida\<rparr>]\<rparr>
                               in Inr (generar_sql convertir_fecha est', est', entradas')
                          else Inl IndexError
                      | None \<Rightarrow> Inl KeyError)
                else Inr (nueva_sql_query, est, entradas')))"

fun aplicar_revisiones ::
  "(string \<Rightarrow> string list \<Rightarrow> string list) \<Rightarrow> (string \<Rightarrow> string \<Rightarrow> error + string) \<Rightarrow>
   (string \<Rightarrow> string option) \<Rightarrow> string list \<Rightarrow>
   revision list \<Rightarrow> string \<times> estructura \<times> int option list \<Rightarrow>
   error + (string \<times> estructura \<times> int option list)" where
  "aplicar_revisiones gcm expandir conv todas [] estado = Inr estado"
| "aplicar_revisiones gcm expandir conv todas (revi # revs) estado =
     bindE (aplicar_revision gcm expandir conv todas revi estado)
       (aplicar_revisiones gcm expandir conv todas revs)"

text \<open>
  \<open>revisar_y_sugerir_traduccion\<close> returns the SQL text; the structured query it mutates
  is returned with it. The original text is only printed.
\<close>

definition revisar_y_sugerir_traduccion ::
  "(string \<Rightarrow> string list \<Rightarrow> string list) \<Rightarrow> (string \<Rightarrow> string \<Rightarrow> error + string) \<Rightarrow>
   (string \<Rightarrow> string option) \<Rightarrow> int option list \<Rightarrow>
   string \<Rightarrow> estructura \<Rightarrow> char Trie \<Rightarrow> error + (string \<times> estructura)" where
  "revisar_y_sugerir_traduccion get_close_matches expandir_plantilla convertir_fecha entradas
     sql_query est trie =
     (let todas_palabras_validas = Trie_get_all_words trie;
          revs = revisiones est trie
      in if revs = [] then Inr (sql_query, est)
         else bindE (aplicar_revisiones get_close_matches expandir_plantilla convertir_fecha
                       todas_palabras_validas revs (sql_query, est, entradas))
                (\<lambda>(nueva_sql_query, est', entradas'). Inr (nueva_sql_query, est')))"

text \<open>The schema words of the example file the program writes when it finds none.\<close>

definition esquema_ejemplo :: "char Trie" where
  "esquema_ejemplo = foldl Trie_insert Trie_init
     [''clientes'', ''productos'', ''ventas'', ''nombre'', ''edad'', ''id'', ''dept'', ''precio'',
      ''fecha'', ''cantidad'']"

lemma concat_enumerate_vacio:
  "list_all P xs \<Longrightarrow>
   concat (map (\<lambda>(i, x). if Q x \<and> \<not> P x then [g i x] else []) (enumerate n xs)) = []"
  by (induction xs arbitrary: n) simp_all

lemma revisiones_vacio:
  assumes "\<forall>e. entidad est = Some e \<longrightarrow> Trie_search trie e"
    and "list_all (Trie_search trie) (mostrar_de est)"
    and "list_all (\<lambda>cond. Trie_search trie (atributo cond)) (condiciones est)"
  shows "revisiones est trie = []"
proof -
  have "revisiones_entidad est trie = []"
    using assms(1) by (simp add: revisiones_entidad_def split: option.splits)
  moreover have "revisiones_mostrar est trie = []"
    unfolding revisiones_mostrar_def
    using concat_enumerate_vacio [OF assms(2), of "\<lambda>x. True"] by simp
  moreover have "revisiones_condiciones est trie = []"
    unfolding revisiones_condiciones_def
    using concat_enumerate_vacio
      [of "\<lambda>cond. Trie_search trie (atributo cond)" "condiciones est" "\<lambda>cond. atributo cond \<noteq> []"]
      assms(3)
    by simp
  ultimately show ?thesis by (simp add: revisiones_def)
qed

text \<open>
  Claim C10. When the entity (if one is set), every attribute to show and every
  condition attribute are found in the Trie, no revision is recorded, and the corrector
  returns the SQL text it was given and leaves the structured query as it was, whatever
  the suggestions, the template expansion and the answers would be.
\<close>

theorem revisar_sin_revisiones:
  assumes "\<forall>e. entidad est = Some e \<longrightarrow> Trie_search trie e"
    and "list_all (Trie_search trie) (mostrar_de est)"
    and "list_all (\<lambda>cond. Trie_search trie (atributo cond)) (condiciones est)"
  shows "revisiones est trie = [] \<and>
         revisar_y_sugerir_traduccion get_close_matches expandir_plantilla convertir_fecha
           entradas sql_query est trie =
           Inr (sql_query, est)"
  using revisiones_vacio [OF assms] by (simp add: revisar_y_sugerir_traduccion_def)

theorem revisar_sin_revisiones_witness:
  "entidad \<lparr>accion = None, entidad = Some ''ventas'',
            condiciones = [\<lparr>atributo = ''edad'', operador = ''>'', valor = ''30''\<rparr>],
            atributos_mostrar = Some [''nombre'']\<rparr> = Some ''ventas'' \<and>
   Trie_search esquema_ejemplo ''ventas'' \<and> Trie_search esquema_ejemplo ''nombre'' \<and>
   Trie_search esquema_ejemplo ''edad'' \<and>
   revisar_y_sugerir_traduccion (\<lambda>w ws. []) (\<lambda>frase repl. Inr repl) sin_conversion []
     ''SELECT nombre FROM ventas WHERE edad > 30''
     \<lparr>accion = None, entidad = Some ''ventas'',
      condiciones = [\<lparr>atributo = ''edad'', operador = ''>'', valor = ''30''\<rparr>],
      atributos_mostrar = Some [''nombre'']\<rparr> esquema_ejemplo =
   Inr (''SELECT nombre FROM ventas WHERE edad > 30'',
        \<lparr>accion = None, entidad = Some ''ventas'',
         condiciones = [\<lparr>atributo = ''edad'', operador = ''>'', valor = ''30''\<rparr>],
         atributos_mostrar = Some [''nombre'']\<rparr>)"
proof -
  have v: "Trie_search esquema_ejemplo ''ventas''" by code_simp
  have n: "Trie_search esquema_ejemplo ''nombre''" by code_simp
  have e: "Trie_search esquema_ejemplo ''edad''" by code_simp
  show ?thesis
    using v n e
      revisar_sin_revisiones
        [of "\<lparr>accion = None, entidad = Some ''ventas'',
             condiciones = [\<lparr>atributo = ''edad'', operador = ''>'', valor = ''30''\<rparr>],
             atributos_mostrar = Some [''nombre'']\<rparr>" esquema_ejemplo "\<lambda>w ws. []"
            "\<lambda>frase repl. Inr repl" sin_conversion "[]"
            "''SELECT nombre FROM ventas WHERE edad > 30''"]
    by (simp add: mostrar_de_def)
qed

end
